theory Spec2Isabelle
  imports Complex_Main "HOL-Library.AList" "HOL-Library.Multiset"
begin

section \<open>Conventions of the embedding\<close>

text \<open>
  The TypeScript sources are embedded function by function, under their own names.
  \<^item> A JavaScript \<open>number\<close> that carries a price, a fee or a percentage is a \<open>real\<close>:
    the arithmetic is the exact one, binary rounding is not modelled. A \<open>number\<close> that
    carries milliseconds or a counter is an \<open>int\<close> or a \<open>nat\<close>.
  \<^item> A JavaScript \<open>Map\<close> keeps its keys in insertion order, \<open>set\<close> on a present key
    replaces the value in place and \<open>set\<close> on a fresh key appends: this is an association
    list with \<open>AList.update\<close>, and \<open>Map.delete\<close> is \<open>AList.delete\<close>.
  \<^item> \<open>Date.now()\<close> is an argument \<open>now\<close> of the function that reads the clock.
  \<^item> An exception is a value: \<open>Inl\<close> of a sum, or a fault flag of the store that raises it.
\<close>

section \<open>Shared types (\<open>@arbot/shared\<close>)\<close>

record OrderBookEntry =
  price :: string
  quantity :: string

record OrderBook =
  symbol :: string
  exchange :: string
  bids :: "OrderBookEntry list"
  asks :: "OrderBookEntry list"
  timestamp :: int
  lastUpdateId :: "nat option"

section \<open>Opportunity detector: state and defaults\<close>

record ExchangeFee =
  taker :: real
  maker :: real

record OpportunityConfig =
  minProfitPercent :: real
  slippageBuffer :: real
  maxSpreadAge :: int

record OpportunityDetector =
  config :: OpportunityConfig
  tradeAmount :: real
  orderBooks :: "(string \<times> OrderBook) list"
  lastOpportunityCheck :: int

text \<open>The field initialisers of the class; the constructor itself only calls \<open>super()\<close>.\<close>

definition OpportunityDetector_new :: OpportunityDetector where
  "OpportunityDetector_new =
     \<lparr> config = \<lparr> minProfitPercent = - 0.5, slippageBuffer = 0.0, maxSpreadAge = 5000 \<rparr>,
       tradeAmount = 1000,
       orderBooks = [],
       lastOpportunityCheck = 0 \<rparr>"

text \<open>
  Two tunables are literals of the code, not fields: the throttle of \<open>updateOrderBook\<close>
  (\<open>now - lastOpportunityCheck > 1000\<close>) and the retention bound of
  \<open>cleanupOldOpportunities\<close> (\<open>totalCount > 1000\<close>, \<open>skip: 999\<close>).
\<close>

definition tickIntervalMs :: int where
  "tickIntervalMs = 1000"

definition retentionCount :: nat where
  "retentionCount = 1000"

section \<open>Venue client: reconnect backoff\<close>

text \<open>
  \<open>BaseExchange.handleReconnect\<close>, which the Binance client inherits; the Bybit,
  Coinbase, Kraken, KuCoin and Gemini clients carry a copy of the same body.
  \<open>reconnectTimeout\<close> holds the delay of the timer that \<open>handleReconnect\<close> has set and
  that has not fired yet; its callback calls \<open>connect()\<close>. \<open>emitted\<close> collects the
  \<open>connected\<close> and \<open>error\<close> events of the client, an \<open>error\<close> event with the venue
  and the message of its error.
\<close>

datatype client_event = ConnectedEvent string | ErrorEvent string string

record VenueClient =
  exchangeId :: string
  reconnectAttempts :: nat
  reconnectTimeout :: "nat option"
  emitted :: "client_event list"

definition maxReconnectAttempts :: nat where
  "maxReconnectAttempts = 5"

definition VenueClient_new :: "string \<Rightarrow> VenueClient" where
  "VenueClient_new ex =
     \<lparr> exchangeId = ex, reconnectAttempts = 0, reconnectTimeout = None, emitted = [] \<rparr>"

definition handleReconnect :: "VenueClient \<Rightarrow> VenueClient" where
  "handleReconnect c =
     (if reconnectAttempts c \<ge> maxReconnectAttempts
      then c\<lparr> emitted := emitted c @ [ErrorEvent (exchangeId c) ''Max reconnection attempts reached''] \<rparr>
      else
        let n = reconnectAttempts c + 1;
            delay = min (1000 * 2 ^ n) 30000
        in c\<lparr> reconnectAttempts := n, reconnectTimeout := Some delay \<rparr>)"

text \<open>
  What reaches \<open>handleReconnect\<close>. In the Binance, Bybit, Coinbase, Kraken and KuCoin
  clients \<open>connect()\<close> primes the books, creates the socket and registers the handlers,
  all inside one \<open>try\<close>: if that throws, the \<open>catch\<close> calls \<open>handleReconnect\<close>;
  otherwise no field changes until the socket reports. The \<open>open\<close> handler sets
  \<open>reconnectAttempts\<close> to 0 and emits \<open>connected\<close>, the \<open>error\<close> handler emits an
  \<open>error\<close> event with the socket's error, and the \<open>close\<close> handler calls
  \<open>handleReconnect\<close>.
\<close>

datatype ConnectResult = Returned | Thrown

datatype SocketEvent = WsOpen | WsError string | WsClose

definition connect :: "VenueClient \<Rightarrow> ConnectResult \<Rightarrow> VenueClient" where
  "connect c result = (case result of Returned \<Rightarrow> c | Thrown \<Rightarrow> handleReconnect c)"

definition onSocketEvent :: "VenueClient \<Rightarrow> SocketEvent \<Rightarrow> VenueClient" where
  "onSocketEvent c ev =
     (case ev of
        WsOpen \<Rightarrow> c\<lparr> reconnectAttempts := 0,
                      emitted := emitted c @ [ConnectedEvent (exchangeId c)] \<rparr>
      | WsError e \<Rightarrow> c\<lparr> emitted := emitted c @ [ErrorEvent (exchangeId c) e] \<rparr>
      | WsClose \<Rightarrow> handleReconnect c)"

text \<open>
  The Gemini client differs: its \<open>connect()\<close> sets \<open>reconnectAttempts\<close> to 0 and emits
  \<open>connected\<close> as soon as \<open>connectToSymbols()\<close> has created the sockets, before any of
  them has opened, and its \<open>open\<close> handler only logs. (One socket per symbol; the model
  is that of a client with one symbol.)
\<close>

definition Gemini_connect :: "VenueClient \<Rightarrow> ConnectResult \<Rightarrow> VenueClient" where
  "Gemini_connect c result =
     (case result of
        Returned \<Rightarrow> c\<lparr> reconnectAttempts := 0,
                        emitted := emitted c @ [ConnectedEvent (exchangeId c)] \<rparr>
      | Thrown \<Rightarrow> handleReconnect c)"

definition Gemini_onSocketEvent :: "VenueClient \<Rightarrow> SocketEvent \<Rightarrow> VenueClient" where
  "Gemini_onSocketEvent c ev =
     (case ev of
        WsOpen \<Rightarrow> c
      | WsError e \<Rightarrow> c\<lparr> emitted := emitted c @ [ErrorEvent (exchangeId c) e] \<rparr>
      | WsClose \<Rightarrow> handleReconnect c)"

text \<open>
  One connection attempt: a call of \<open>connect()\<close>, by the manager at start or by the
  timer, which is then no longer pending, and what becomes of it. Either \<open>connect()\<close>
  throws; or the socket reports an error and closes (the \<open>ws\<close> library emits \<open>error\<close>,
  then \<open>close\<close>, when the connection cannot be established); or it closes without an
  error; or it opens. The first three are the failures.
\<close>

datatype Attempt = ConnectThrows | SocketFails string | SocketCloses | SocketOpens

definition attemptEvents :: "Attempt \<Rightarrow> ConnectResult \<times> SocketEvent list" where
  "attemptEvents a =
     (case a of
        ConnectThrows \<Rightarrow> (Thrown, [])
      | SocketFails e \<Rightarrow> (Returned, [WsError e, WsClose])
      | SocketCloses \<Rightarrow> (Returned, [WsClose])
      | SocketOpens \<Rightarrow> (Returned, [WsOpen]))"

definition connectionAttempt :: "VenueClient \<Rightarrow> Attempt \<Rightarrow> VenueClient" where
  "connectionAttempt c a =
     (let (result, events) = attemptEvents a
      in foldl onSocketEvent (connect (c\<lparr> reconnectTimeout := None \<rparr>) result) events)"

definition Gemini_connectionAttempt :: "VenueClient \<Rightarrow> Attempt \<Rightarrow> VenueClient" where
  "Gemini_connectionAttempt c a =
     (let (result, events) = attemptEvents a
      in foldl Gemini_onSocketEvent (Gemini_connect (c\<lparr> reconnectTimeout := None \<rparr>) result) events)"

definition afterAttempts :: "VenueClient \<Rightarrow> Attempt list \<Rightarrow> VenueClient" where
  "afterAttempts c as = foldl connectionAttempt c as"

definition Gemini_afterAttempts :: "VenueClient \<Rightarrow> Attempt list \<Rightarrow> VenueClient" where
  "Gemini_afterAttempts c as = foldl Gemini_connectionAttempt c as"

text \<open>
  The events of a run of failed attempts, the first of which is the \<open>i\<close>-th in a row:
  the error event of the socket, if the attempt ended with one, and from the sixth
  failure on the error event of \<open>handleReconnect\<close>.
\<close>

definition socketErrorEvents :: "string \<Rightarrow> Attempt \<Rightarrow> client_event list" where
  "socketErrorEvents ex a = (case a of SocketFails e \<Rightarrow> [ErrorEvent ex e] | _ \<Rightarrow> [])"

definition failureEvents :: "string \<Rightarrow> nat \<Rightarrow> Attempt \<Rightarrow> client_event list" where
  "failureEvents ex i a =
     socketErrorEvents ex a
     @ (if i \<le> 5 then [] else [ErrorEvent ex ''Max reconnection attempts reached''])"

fun eventsOfFailures :: "string \<Rightarrow> nat \<Rightarrow> Attempt list \<Rightarrow> client_event list" where
  "eventsOfFailures ex i [] = []"
| "eventsOfFailures ex i (a # as) = failureEvents ex i a @ eventsOfFailures ex (Suc i) as"

section \<open>Strings\<close>

text \<open>
  The JavaScript string operations the sources use, on ASCII strings: venue and symbol
  names are ASCII, and outside ASCII \<open>toUpperCase\<close> is left as the identity.
\<close>

definition lowerLetters :: string where
  "lowerLetters = ''abcdefghijklmnopqrstuvwxyz''"

definition upperLetters :: string where
  "upperLetters = ''ABCDEFGHIJKLMNOPQRSTUVWXYZ''"

definition toUpperCase :: "string \<Rightarrow> string" where
  "toUpperCase = map (\<lambda>c. case map_of (zip lowerLetters upperLetters) c of Some u \<Rightarrow> u | None \<Rightarrow> c)"

definition toLowerCase :: "string \<Rightarrow> string" where
  "toLowerCase = map (\<lambda>c. case map_of (zip upperLetters lowerLetters) c of Some l \<Rightarrow> l | None \<Rightarrow> c)"

definition endsWith :: "string \<Rightarrow> string \<Rightarrow> bool" where
  "endsWith s q = (length q \<le> length s \<and> drop (length s - length q) s = q)"

text \<open>\<open>s.slice(0, -n)\<close> for \<open>n > 0\<close>.\<close>

definition sliceOff :: "string \<Rightarrow> nat \<Rightarrow> string" where
  "sliceOff s n = take (length s - n) s"

text \<open>\<open>s.split(c)\<close> for a separator of one character.\<close>

fun splitOn :: "char \<Rightarrow> string \<Rightarrow> string list" where
  "splitOn sep [] = [[]]"
| "splitOn sep (c # cs) =
     (if c = sep then [] # splitOn sep cs
      else (case splitOn sep cs of [] \<Rightarrow> [[c]] | w # ws \<Rightarrow> (c # w) # ws))"

text \<open>
  \<open>s.split(separator)\<close>; the separators of the format table are \<open>'-'\<close> and \<open>'/'\<close>
  (the empty separator never reaches \<open>split\<close>: it is falsy and takes the other branch).
\<close>

definition split :: "string \<Rightarrow> string \<Rightarrow> string list" where
  "split s separator = (case separator of [c] \<Rightarrow> splitOn c s | _ \<Rightarrow> [s])"

text \<open>\<open>s.replace(/-/g, '')\<close> and \<open>s.replace(/USDT/g, 'USD')\<close>: every match, left to right.\<close>

definition removeDashes :: "string \<Rightarrow> string" where
  "removeDashes s = filter (\<lambda>c. c \<noteq> CHR ''-'') s"

fun replaceUSDT :: "string \<Rightarrow> string" where
  "replaceUSDT (a # b # c # d # rest) =
     (if [a, b, c, d] = ''USDT'' then ''USD'' @ replaceUSDT rest
      else a # replaceUSDT (b # c # d # rest))"
| "replaceUSDT s = s"

section \<open>Symbol registry (\<open>ExchangeSymbolMapper\<close>)\<close>

text \<open>
  The format table of \<open>initializeExchangeFormats\<close>. The \<open>examples\<close> lists are left out:
  only \<open>getSupportedSymbols\<close> and \<open>findCommonSymbols\<close> read them.
\<close>

record ExchangeSymbolFormat =
  formatExchangeId :: string
  nativeFormat :: string
  separator :: string
  baseFirst :: bool
  specialMappings :: "(string \<times> string) list option"

definition krakenSpecialMappings :: "(string \<times> string) list" where
  "krakenSpecialMappings = [(''BTC'', ''XBT''), (''XBT'', ''BTC'')]"

definition exchangeFormats :: "(string \<times> ExchangeSymbolFormat) list" where
  "exchangeFormats =
     [(''binance'', \<lparr> formatExchangeId = ''binance'', nativeFormat = ''BASEQOUTE'',
          separator = [], baseFirst = True, specialMappings = None \<rparr>),
      (''coinbase'', \<lparr> formatExchangeId = ''coinbase'', nativeFormat = ''BASE-QUOTE'',
          separator = ''-'', baseFirst = True, specialMappings = None \<rparr>),
      (''kraken'', \<lparr> formatExchangeId = ''kraken'', nativeFormat = ''BASE/QUOTE'',
          separator = ''/'', baseFirst = True, specialMappings = Some krakenSpecialMappings \<rparr>),
      (''bybit'', \<lparr> formatExchangeId = ''bybit'', nativeFormat = ''BASEQOUTE'',
          separator = [], baseFirst = True, specialMappings = None \<rparr>),
      (''kucoin'', \<lparr> formatExchangeId = ''kucoin'', nativeFormat = ''BASE-QUOTE'',
          separator = ''-'', baseFirst = True, specialMappings = None \<rparr>),
      (''gemini'', \<lparr> formatExchangeId = ''gemini'', nativeFormat = ''baseqoute'',
          separator = [], baseFirst = True, specialMappings = None \<rparr>)]"

text \<open>
  The loop shared by \<open>parseNormalizedSymbol\<close> and the separator-less branch of
  \<open>parseExchangeSymbol\<close>: the first quote of the list that ends the symbol and leaves a
  non-empty base.
\<close>

fun splitQuote :: "string list \<Rightarrow> string \<Rightarrow> (string \<times> string) option" where
  "splitQuote [] s = None"
| "splitQuote (q # qs) s =
     (if endsWith s q \<and> sliceOff s (length q) \<noteq> []
      then Some (sliceOff s (length q), q)
      else splitQuote qs s)"

definition parseNormalizedSymbol :: "string \<Rightarrow> (string \<times> string) option" where
  "parseNormalizedSymbol s =
     splitQuote [''USDT'', ''USDC'', ''USD'', ''EUR'', ''BTC'', ''ETH'', ''BNB''] s"

definition parseExchangeSymbol :: "string \<Rightarrow> ExchangeSymbolFormat \<Rightarrow> (string \<times> string) option" where
  "parseExchangeSymbol s format =
     (if separator format \<noteq> []
      then (case split s (separator format) of
              [p0, p1] \<Rightarrow>
                if p0 \<noteq> [] \<and> p1 \<noteq> []
                then Some (if baseFirst format then (p0, p1) else (p1, p0))
                else None
            | _ \<Rightarrow> None)
      else splitQuote [''USDT'', ''USDC'', ''USD'', ''EUR'', ''BTC'', ''ETH''] (toUpperCase s))"

definition normalizeQuoteAsset :: "string \<Rightarrow> string" where
  "normalizeQuoteAsset quote =
     (let normalized = toUpperCase quote
      in if normalized \<in> set [''USDT'', ''USDC'', ''BUSD'', ''DAI''] then ''USD'' else normalized)"

text \<open>\<open>format.specialMappings.get(base) || base\<close>: an empty mapped value is falsy.\<close>

definition applySpecialMappings :: "ExchangeSymbolFormat \<Rightarrow> string \<Rightarrow> string" where
  "applySpecialMappings format base =
     (case specialMappings format of
        None \<Rightarrow> base
      | Some m \<Rightarrow> (case map_of m base of
                     None \<Rightarrow> base
                   | Some b \<Rightarrow> if b = [] then base else b))"

definition toExchangeSymbol :: "string \<Rightarrow> string \<Rightarrow> string option" where
  "toExchangeSymbol normalizedSymbol ex =
     (case map_of exchangeFormats ex of
        None \<Rightarrow> None
      | Some format \<Rightarrow>
          (case parseNormalizedSymbol normalizedSymbol of
             None \<Rightarrow> None
           | Some (base0, quote0) \<Rightarrow>
               let base1 = applySpecialMappings format base0;
                   quote1 = (if quote0 = ''USD'' \<and> (ex = ''binance'' \<or> ex = ''kucoin'' \<or> ex = ''bybit'')
                             then ''USDT'' else quote0);
                   lower = (toLowerCase (nativeFormat format) = nativeFormat format);
                   base = (if lower then toLowerCase base1 else toUpperCase base1);
                   quote = (if lower then toLowerCase quote1 else toUpperCase quote1)
               in Some (if baseFirst format then base @ separator format @ quote
                        else quote @ separator format @ base)))"

definition fromExchangeSymbol :: "string \<Rightarrow> string \<Rightarrow> string option" where
  "fromExchangeSymbol exchangeSymbol ex =
     (case map_of exchangeFormats ex of
        None \<Rightarrow> None
      | Some format \<Rightarrow>
          (case parseExchangeSymbol exchangeSymbol format of
             None \<Rightarrow> None
           | Some (base0, quote0) \<Rightarrow>
               let base = applySpecialMappings format base0;
                   quote = normalizeQuoteAsset quote0
               in Some (toUpperCase base @ toUpperCase quote)))"

text \<open>
  Notions used to state the round trip: the case maps on one character, the quotes of a
  canonical symbol that every venue can parse back, and the alias swap of the Kraken
  format.
\<close>

definition upChar :: "char \<Rightarrow> char" where
  "upChar c = (case map_of (zip lowerLetters upperLetters) c of Some u \<Rightarrow> u | None \<Rightarrow> c)"

definition lowChar :: "char \<Rightarrow> char" where
  "lowChar c = (case map_of (zip upperLetters lowerLetters) c of Some l \<Rightarrow> l | None \<Rightarrow> c)"

definition canonicalQuotes :: "string set" where
  "canonicalQuotes = {''USD'', ''EUR'', ''BTC'', ''ETH''}"

definition krakenSwap :: "string \<Rightarrow> string" where
  "krakenSwap b = (if b = ''BTC'' then ''XBT'' else if b = ''XBT'' then ''BTC'' else b)"

section \<open>Numbers read from strings\<close>

text \<open>
  \<open>parseFloat\<close> on the decimal strings the venues send: an optional minus sign, digits,
  optionally a point and more digits; whatever follows is ignored, as JavaScript does. The
  value is the exact decimal. Exponents and leading blanks are not read, and a string
  without a leading number, which is \<open>NaN\<close> in JavaScript, reads as 0 here: the
  properties below are about feeds whose prices and quantities are decimal numerals.
\<close>

definition isDigit :: "char \<Rightarrow> bool" where
  "isDigit c = (c \<in> set ''0123456789'')"

definition digitValue :: "char \<Rightarrow> nat" where
  "digitValue c =
     (case map_of (zip ''0123456789'' [0, 1, 2, 3, 4, 5, 6, 7, 8, 9]) c of
        Some d \<Rightarrow> d | None \<Rightarrow> 0)"

definition natOfDigits :: "string \<Rightarrow> nat" where
  "natOfDigits ds = foldl (\<lambda>a c. 10 * a + digitValue c) 0 ds"

definition fracOfDigits :: "string \<Rightarrow> real" where
  "fracOfDigits ds = foldr (\<lambda>c a. (real (digitValue c) + a) / 10) ds 0"

definition parseUnsigned :: "string \<Rightarrow> real" where
  "parseUnsigned s =
     (let rest = dropWhile isDigit s;
          fp = (case rest of [] \<Rightarrow> [] | c # r \<Rightarrow> if c = CHR ''.'' then takeWhile isDigit r else [])
      in real (natOfDigits (takeWhile isDigit s)) + fracOfDigits fp)"

definition parseFloat :: "string \<Rightarrow> real" where
  "parseFloat s =
     (case s of
        [] \<Rightarrow> parseUnsigned s
      | c # r \<Rightarrow> if c = CHR ''-'' then - parseUnsigned r else parseUnsigned s)"

section \<open>Opportunity detector: operations\<close>

definition fees :: "(string \<times> ExchangeFee) list" where
  "fees =
     [(''binance'', \<lparr> taker = 0.001, maker = 0.0 \<rparr>),
      (''coinbase'', \<lparr> taker = 0.006, maker = 0.004 \<rparr>),
      (''kraken'', \<lparr> taker = 0.01, maker = 0.01 \<rparr>),
      (''kucoin'', \<lparr> taker = 0.0008, maker = 0.0008 \<rparr>),
      (''bybit'', \<lparr> taker = 0.001, maker = 0.001 \<rparr>),
      (''gemini'', \<lparr> taker = 0.004, maker = 0.002 \<rparr>)]"

text \<open>\<open>this.fees[exchange]?.taker || 0.001\<close>: a missing venue and a zero rate both give 0.001.\<close>

definition takerFee :: "string \<Rightarrow> real" where
  "takerFee ex =
     (case map_of fees ex of
        None \<Rightarrow> 0.001
      | Some f \<Rightarrow> if taker f = 0 then 0.001 else taker f)"

text \<open>
  The opportunity object. Its \<open>id\<close> (\<open>opp_<ms>_<random>\<close>) is left out: it is random and
  nothing below reads it. The numbers that the code carries as strings
  (\<open>buyPrice.toString()\<close>) are kept as numbers.
\<close>

record ArbitrageOpportunity =
  oppSymbol :: string
  buyExchange :: string
  sellExchange :: string
  buyPrice :: real
  sellPrice :: real
  spread :: real
  spreadPercent :: real
  estimatedProfit :: real
  oppTimestamp :: int
  buyFee :: real
  sellFee :: real
  totalFee :: real

definition normalizeSymbol :: "string \<Rightarrow> string" where
  "normalizeSymbol s = replaceUSDT (removeDashes s)"

text \<open>A \<open>Set\<close> filled in iteration order: the first occurrence of each element, in order.\<close>

definition setAdd :: "'a \<Rightarrow> 'a list \<Rightarrow> 'a list" where
  "setAdd x xs = (if x \<in> set xs then xs else xs @ [x])"

definition getAvailableSymbols :: "OpportunityDetector \<Rightarrow> string list" where
  "getAvailableSymbols d =
     fold (\<lambda>(key, orderBook) symbols. setAdd (normalizeSymbol (symbol orderBook)) symbols)
       (orderBooks d) []"

definition isOrderBookFresh :: "OpportunityDetector \<Rightarrow> int \<Rightarrow> OrderBook \<Rightarrow> bool" where
  "isOrderBookFresh d now orderBook =
     (let age = now - timestamp orderBook in age \<le> maxSpreadAge (config d))"

text \<open>
  \<open>calculateOpportunity\<close>. The quotients are those of the reals: where JavaScript divides
  by zero (a best ask of price 0, a trade amount of 0) it yields an infinity or \<open>NaN\<close>,
  which the reals do not have, so the properties below are stated for non-zero divisors.
\<close>

definition calculateOpportunity ::
  "OpportunityDetector \<Rightarrow> int \<Rightarrow> OrderBook \<Rightarrow> OrderBook \<Rightarrow> string \<Rightarrow> ArbitrageOpportunity option" where
  "calculateOpportunity d now buyOrderBook sellOrderBook symb =
     (case (bids sellOrderBook, asks buyOrderBook) of
        (bestBid # _, bestAsk # _) \<Rightarrow>
          let buyPrice = parseFloat (price bestAsk);
              sellPrice = parseFloat (price bestBid);
              assetQuantity = tradeAmount d / buyPrice;
              buyValue = tradeAmount d;
              sellValue = sellPrice * assetQuantity;
              buyFee = buyValue * takerFee (exchange buyOrderBook);
              sellFee = sellValue * takerFee (exchange sellOrderBook);
              totalFees = buyFee + sellFee;
              grossProfit = sellValue - buyValue;
              netProfit = grossProfit - totalFees;
              profitPercent = (netProfit / buyValue) * 100
          in if profitPercent < minProfitPercent (config d) then None
             else Some \<lparr> oppSymbol = symb,
                         buyExchange = exchange buyOrderBook,
                         sellExchange = exchange sellOrderBook,
                         buyPrice = buyPrice,
                         sellPrice = sellPrice,
                         spread = grossProfit,
                         spreadPercent = profitPercent,
                         estimatedProfit = netProfit,
                         oppTimestamp = now,
                         buyFee = buyFee,
                         sellFee = sellFee,
                         totalFee = totalFees \<rparr>
      | _ \<Rightarrow> None)"

definition isProfitableOpportunity :: "OpportunityDetector \<Rightarrow> ArbitrageOpportunity \<Rightarrow> bool" where
  "isProfitableOpportunity d opportunity =
     (let requiredProfit = minProfitPercent (config d) + slippageBuffer (config d)
      in spreadPercent opportunity \<ge> requiredProfit)"

text \<open>The index pairs \<open>i < j\<close> of the two nested loops, in the order the loops visit them.\<close>

fun indexPairs :: "'a list \<Rightarrow> ('a \<times> 'a) list" where
  "indexPairs [] = []"
| "indexPairs (x # xs) = map (Pair x) xs @ indexPairs xs"

text \<open>The inner \<open>Map\<close> of \<open>findArbitrageOpportunities\<close>: venue to fresh book of the symbol.\<close>

definition orderBooksByExchange ::
  "OpportunityDetector \<Rightarrow> int \<Rightarrow> string \<Rightarrow> (string \<times> OrderBook) list" where
  "orderBooksByExchange d now symb =
     fold (\<lambda>(key, orderBook) m.
             if normalizeSymbol (symbol orderBook) = symb \<and> isOrderBookFresh d now orderBook
             then AList.update (exchange orderBook) orderBook m else m)
       (orderBooks d) []"

definition optionToList :: "'a option \<Rightarrow> 'a list" where
  "optionToList x = (case x of None \<Rightarrow> [] | Some y \<Rightarrow> [y])"

definition findArbitrageOpportunities ::
  "OpportunityDetector \<Rightarrow> int \<Rightarrow> string \<Rightarrow> ArbitrageOpportunity list" where
  "findArbitrageOpportunities d now symb =
     (let byExchange = orderBooksByExchange d now symb
      in if length byExchange < 2 then []
         else concat (map (\<lambda>((exchange1, orderBook1), (exchange2, orderBook2)).
                             if exchange1 = [] \<or> exchange2 = [] then []
                             else optionToList (calculateOpportunity d now orderBook1 orderBook2 symb)
                                @ optionToList (calculateOpportunity d now orderBook2 orderBook1 symb))
                       (indexPairs byExchange)))"

text \<open>
  \<open>detectOpportunities\<close>: the opportunities handed to \<open>handleOpportunity\<close>, in order.
  \<open>handleOpportunity\<close> is asynchronous and not awaited; it is modelled with the sink.
\<close>

definition detectOpportunities :: "OpportunityDetector \<Rightarrow> int \<Rightarrow> ArbitrageOpportunity list" where
  "detectOpportunities d now =
     concat (map (\<lambda>symb. filter (isProfitableOpportunity d) (findArbitrageOpportunities d now symb))
              (getAvailableSymbols d))"

definition orderBookKey :: "OrderBook \<Rightarrow> string" where
  "orderBookKey orderBook = exchange orderBook @ '':'' @ symbol orderBook"

definition updateOrderBook ::
  "OpportunityDetector \<Rightarrow> int \<Rightarrow> OrderBook \<Rightarrow> OpportunityDetector \<times> ArbitrageOpportunity list" where
  "updateOrderBook d now orderBook =
     (let d1 = d\<lparr> orderBooks := AList.update (orderBookKey orderBook) orderBook (orderBooks d) \<rparr>
      in if now - lastOpportunityCheck d1 > 1000
         then (d1\<lparr> lastOpportunityCheck := now \<rparr>, detectOpportunities d1 now)
         else (d1, []))"

text \<open>\<open>Partial<OpportunityConfig>\<close>: \<open>Object.assign\<close> copies the fields that are present.\<close>

record PartialOpportunityConfig =
  newMinProfitPercent :: "real option"
  newSlippageBuffer :: "real option"
  newMaxSpreadAge :: "int option"

definition orElse :: "'a option \<Rightarrow> 'a \<Rightarrow> 'a" where
  "orElse x y = (case x of None \<Rightarrow> y | Some v \<Rightarrow> v)"

definition updateConfig :: "OpportunityDetector \<Rightarrow> PartialOpportunityConfig \<Rightarrow> OpportunityDetector" where
  "updateConfig d newConfig =
     d\<lparr> config :=
          \<lparr> minProfitPercent = orElse (newMinProfitPercent newConfig) (minProfitPercent (config d)),
            slippageBuffer = orElse (newSlippageBuffer newConfig) (slippageBuffer (config d)),
            maxSpreadAge = orElse (newMaxSpreadAge newConfig) (maxSpreadAge (config d)) \<rparr> \<rparr>"

definition updateTradeAmount :: "OpportunityDetector \<Rightarrow> real \<Rightarrow> OpportunityDetector" where
  "updateTradeAmount d amount = d\<lparr> tradeAmount := amount \<rparr>"


text \<open>The public operations of the detector, and a run of them.\<close>

datatype DetectorOp =
    UpdateOrderBook int OrderBook
  | UpdateConfig PartialOpportunityConfig
  | UpdateTradeAmount real
  | GetConfig

fun applyOp :: "OpportunityDetector \<Rightarrow> DetectorOp \<Rightarrow> OpportunityDetector" where
  "applyOp d (UpdateOrderBook now orderBook) = fst (updateOrderBook d now orderBook)"
| "applyOp d (UpdateConfig newConfig) = updateConfig d newConfig"
| "applyOp d (UpdateTradeAmount amount) = updateTradeAmount d amount"
| "applyOp d GetConfig = d"

definition runOps :: "OpportunityDetector \<Rightarrow> DetectorOp list \<Rightarrow> OpportunityDetector" where
  "runOps d ops = foldl applyOp d ops"


section \<open>Dynamic manager: order-book intake\<close>

text \<open>
  The key/value store behind \<open>redisClient\<close>: \<open>setEx\<close> either stores the value with its
  time to live or throws, which it does when the connection is down. The stored value is
  the book itself rather than its JSON text.
\<close>

record RedisClient =
  connected :: bool
  entries :: "(string \<times> nat \<times> OrderBook) list"

definition setEx :: "RedisClient \<Rightarrow> string \<Rightarrow> nat \<Rightarrow> OrderBook \<Rightarrow> string + RedisClient" where
  "setEx r key ttl v =
     (if connected r then Inr (r\<lparr> entries := AList.update key (ttl, v) (entries r) \<rparr>)
      else Inl ''The client is closed'')"

datatype ManagerEvent = OrderbookUpdate OrderBook

text \<open>
  The part of the manager that the intake touches. \<open>handedOpportunities\<close> are the
  opportunities that the detector, run inside \<open>updateOrderBook\<close>, has passed to its
  asynchronous \<open>handleOpportunity\<close>; \<open>errorLog\<close> is what \<open>console.error\<close> has printed.
\<close>

record DynamicMarketDataManager =
  redisClient :: RedisClient
  opportunityDetector :: OpportunityDetector
  emittedEvents :: "ManagerEvent list"
  handedOpportunities :: "ArbitrageOpportunity list"
  errorLog :: "string list"

definition handleOrderBookUpdate ::
  "DynamicMarketDataManager \<Rightarrow> int \<Rightarrow> OrderBook \<Rightarrow> DynamicMarketDataManager" where
  "handleOrderBookUpdate m now orderBook =
     (let key = ''orderbook:'' @ exchange orderBook @ '':'' @ symbol orderBook
      in case setEx (redisClient m) key 10 orderBook of
           Inl error \<Rightarrow> m\<lparr> errorLog := errorLog m @ [error] \<rparr>
         | Inr redis \<Rightarrow>
             let (detector, opportunities) = updateOrderBook (opportunityDetector m) now orderBook
             in m\<lparr> redisClient := redis,
                  opportunityDetector := detector,
                  handedOpportunities := handedOpportunities m @ opportunities,
                  emittedEvents := emittedEvents m @ [OrderbookUpdate orderBook] \<rparr>)"

text \<open>Books used as concrete inputs below.\<close>

definition level :: "string \<Rightarrow> string \<Rightarrow> OrderBookEntry" where
  "level p q = \<lparr> price = p, quantity = q \<rparr>"

definition binanceBook :: "int \<Rightarrow> OrderBook" where
  "binanceBook t =
     \<lparr> symbol = ''BTCUSDT'', exchange = ''binance'',
       bids = [level ''9999'' ''1''], asks = [level ''10000'' ''1''],
       timestamp = t, lastUpdateId = Some 7 \<rparr>"

definition coinbaseBook :: "int \<Rightarrow> OrderBook" where
  "coinbaseBook t =
     \<lparr> symbol = ''BTC-USD'', exchange = ''coinbase'',
       bids = [level ''10200'' ''1''], asks = [level ''10201'' ''1''],
       timestamp = t, lastUpdateId = None \<rparr>"


definition krakenBook :: "string \<Rightarrow> int \<Rightarrow> OrderBook" where
  "krakenBook nativeSymbol t =
     \<lparr> symbol = nativeSymbol, exchange = ''kraken'',
       bids = [level ''10500'' ''1''], asks = [level ''10501'' ''1''],
       timestamp = t, lastUpdateId = None \<rparr>"

section \<open>Venue clients: local order books\<close>





subsection \<open>Binance\<close>




subsection \<open>Bybit\<close>




subsection \<open>The properties of a side\<close>







text \<open>Different price strings of the side read as different numbers.\<close>

definition pricesReadApart :: "OrderBookEntry list \<Rightarrow> bool" where
  "pricesReadApart xs = inj_on parseFloat (set (map price xs))"










section \<open>Opportunity sink\<close>

text \<open>
  Modelled from the spec: the Prisma schema of the sink is not among the sources. The
  opportunity table has the columns of section 6, with \<open>id\<close> and \<open>timestamp\<close> the two
  that retention reads; the type of \<open>id\<close> is left open (any linear order, as
  \<open>id: { lt: cutoffId }\<close> needs). The venue table is keyed by \<open>name\<close> and holds
  \<open>(ws_url, rest_url)\<close>; an opportunity row refers to its two venues by name.
\<close>

record 'i OpportunityRow =
  rowId :: 'i
  rowTimestamp :: int
  rowOpportunity :: ArbitrageOpportunity

record ExchangeRow =
  exchangeName :: string
  wsUrl :: string
  restUrl :: string

text \<open>
  \<open>findMany({orderBy: {timestamp: 'desc'}, ...})\<close>: newest first; rows of equal
  timestamp are left in table order.
\<close>

definition newestFirst :: "'i OpportunityRow list \<Rightarrow> 'i OpportunityRow list" where
  "newestFirst rows = sort_key (\<lambda>r. - rowTimestamp r) rows"

text \<open>\<open>cleanupOldOpportunities\<close> on the opportunity table (the code's literals 1000 and 999).\<close>

definition cleanupOldOpportunities :: "('i::linorder) OpportunityRow list \<Rightarrow> 'i OpportunityRow list" where
  "cleanupOldOpportunities rows =
     (let totalCount = length rows
      in if totalCount > 1000
         then (case take 1 (drop 999 (newestFirst rows)) of
                 [] \<Rightarrow> rows
               | keepFromRecord # _ \<Rightarrow>
                   let cutoffId = rowId keepFromRecord
                   in filter (\<lambda>r. \<not> rowId r < cutoffId) rows)
         else rows)"

text \<open>An append that succeeds: \<open>create\<close>, then \<open>cleanupOldOpportunities\<close>.\<close>

definition sinkAppend :: "('i::linorder) OpportunityRow list \<Rightarrow> 'i OpportunityRow \<Rightarrow> 'i OpportunityRow list" where
  "sinkAppend rows row = cleanupOldOpportunities (rows @ [row])"

text \<open>The retention rule in the words of the specification: the \<open>n\<close> newest rows by timestamp.\<close>

definition newestRows :: "nat \<Rightarrow> 'i OpportunityRow list \<Rightarrow> 'i OpportunityRow list" where
  "newestRows n rows = take n (newestFirst rows)"

text \<open>
  Concrete tables. \<open>rowAt\<close> is a row with a given id and timestamp; its other columns
  are those of one fixed opportunity.
\<close>

definition someOpportunity :: ArbitrageOpportunity where
  "someOpportunity =
     \<lparr> oppSymbol = ''BTCUSD'', buyExchange = ''binance'', sellExchange = ''coinbase'',
       buyPrice = 10000, sellPrice = 10200, spread = 20, spreadPercent = 1.288,
       estimatedProfit = 12.88, oppTimestamp = 0, buyFee = 1, sellFee = 6.12, totalFee = 7.12 \<rparr>"

definition rowAt :: "nat \<Rightarrow> int \<Rightarrow> nat OpportunityRow" where
  "rowAt i t = \<lparr> rowId = i, rowTimestamp = t, rowOpportunity = someOpportunity \<rparr>"

text \<open>A thousand rows with ids 1 to 1000, stored in the order they were detected.\<close>

definition thousandRows :: "nat OpportunityRow list" where
  "thousandRows = map (\<lambda>i. rowAt i (1000 + int i)) [1..<1001]"

section \<open>Persisting an opportunity\<close>

text \<open>
  Modelled from the spec: the data-mapper calls on the sink, whose schema is not among
  the sources. \<open>create\<close> fails with a foreign-key error when a venue the row refers to
  is missing from the venue table, and every call fails with another error when the store
  cannot be reached. \<open>upsert\<close> with an empty \<open>update\<close> inserts the venue row if its name
  is absent and otherwise leaves the table as it is. New rows get increasing ids.
\<close>

datatype DbError = ForeignKeyConstraint | OtherDbError

record Database =
  exchangeTable :: "ExchangeRow list"
  opportunityTable :: "nat OpportunityRow list"
  nextId :: nat
  reachable :: bool

definition createOpportunity :: "Database \<Rightarrow> ArbitrageOpportunity \<Rightarrow> DbError + Database" where
  "createOpportunity db opportunity =
     (if \<not> reachable db then Inl OtherDbError
      else if buyExchange opportunity \<notin> set (map exchangeName (exchangeTable db))
              \<or> sellExchange opportunity \<notin> set (map exchangeName (exchangeTable db))
      then Inl ForeignKeyConstraint
      else Inr (db\<lparr> opportunityTable := opportunityTable db @
                       [\<lparr> rowId = nextId db, rowTimestamp = oppTimestamp opportunity,
                          rowOpportunity = opportunity \<rparr>],
                    nextId := Suc (nextId db) \<rparr>))"

definition upsertExchange :: "Database \<Rightarrow> ExchangeRow \<Rightarrow> DbError + Database" where
  "upsertExchange db row =
     (if \<not> reachable db then Inl OtherDbError
      else if exchangeName row \<in> set (map exchangeName (exchangeTable db)) then Inr db
      else Inr (db\<lparr> exchangeTable := exchangeTable db @ [row] \<rparr>))"

text \<open>\<open>ensureExchangesExist\<close>: the loop over the literal list \<open>['binance', 'coinbase']\<close>.\<close>

definition defaultExchangeRow :: "string \<Rightarrow> ExchangeRow" where
  "defaultExchangeRow exchangeName' =
     \<lparr> exchangeName = exchangeName',
       wsUrl = (if exchangeName' = ''binance'' then ''wss://stream.binance.com:9443/ws''
                else ''wss://ws-feed.exchange.coinbase.com''),
       restUrl = (if exchangeName' = ''binance'' then ''https://api.binance.com/api/v3''
                  else ''https://api.exchange.coinbase.com'') \<rparr>"

fun upsertAll :: "Database \<Rightarrow> string list \<Rightarrow> DbError + Database" where
  "upsertAll db [] = Inr db"
| "upsertAll db (exchangeName' # rest) =
     (case upsertExchange db (defaultExchangeRow exchangeName') of
        Inl error \<Rightarrow> Inl error
      | Inr db' \<Rightarrow> upsertAll db' rest)"

definition ensureExchangesExist :: "Database \<Rightarrow> DbError + Database" where
  "ensureExchangesExist db = upsertAll db [''binance'', ''coinbase'']"

text \<open>
  \<open>saveOpportunityToDatabase\<close>. The result is \<open>None\<close> when the call never returns,
  \<open>Some (Inl e)\<close> when it throws \<open>e\<close> (an error of \<open>ensureExchangesExist\<close>, raised inside
  the \<open>catch\<close> block) and \<open>Some (Inr (db, logged))\<close> when it returns, with what
  \<open>console.error\<close> has printed. \<open>cleanupOldOpportunities\<close> catches its own errors.
\<close>

partial_function (option) saveOpportunityToDatabase ::
  "Database \<Rightarrow> ArbitrageOpportunity \<Rightarrow> (DbError + Database \<times> string list) option" where
  "saveOpportunityToDatabase db opportunity =
     (case createOpportunity db opportunity of
        Inr db1 \<Rightarrow>
          Some (Inr (db1\<lparr> opportunityTable := cleanupOldOpportunities (opportunityTable db1) \<rparr>, []))
      | Inl error \<Rightarrow>
          if error = ForeignKeyConstraint
          then (case ensureExchangesExist db of
                  Inl error' \<Rightarrow> Some (Inl error')
                | Inr db2 \<Rightarrow> saveOpportunityToDatabase db2 opportunity)
          else Some (Inr (db, [''Database error''])))"

datatype DetectorEvent = OpportunityDetected ArbitrageOpportunity

text \<open>
  \<open>handleOpportunity\<close>: the store afterwards, the events emitted and the lines logged;
  \<open>None\<close> when it never gets past the save.
\<close>

definition handleOpportunity ::
  "Database \<Rightarrow> ArbitrageOpportunity \<Rightarrow> (Database \<times> DetectorEvent list \<times> string list) option" where
  "handleOpportunity db opportunity =
     (case saveOpportunityToDatabase db opportunity of
        None \<Rightarrow> None
      | Some (Inl error) \<Rightarrow> Some (db, [], [''Error handling opportunity''])
      | Some (Inr (db', logged)) \<Rightarrow> Some (db', [OpportunityDetected opportunity], logged))"

definition emptyDatabase :: Database where
  "emptyDatabase = \<lparr> exchangeTable = [], opportunityTable = [], nextId = 1, reachable = True \<rparr>"

text \<open>An opportunity that buys on Binance and sells on Bybit.\<close>

definition bybitOpportunity :: ArbitrageOpportunity where
  "bybitOpportunity = someOpportunity\<lparr> sellExchange := ''bybit'' \<rparr>"

text \<open>The venues of the opportunity are in the venue table or among the two upserted.\<close>

definition venuesCovered :: "Database \<Rightarrow> ArbitrageOpportunity \<Rightarrow> bool" where
  "venuesCovered db opportunity =
     ({buyExchange opportunity, sellExchange opportunity}
        \<subseteq> set (map exchangeName (exchangeTable db)) \<union> {''binance'', ''coinbase''})"

section \<open>Properties\<close>

subsection \<open>Defaults of the detector\<close>

text \<open>
  C4, as stated: a detector constructed without configuration has
  \<open>min_profit_percent = 0.1\<close> and \<open>slippage_buffer = 0.1\<close> (and the other defaults).
  The field initialisers say otherwise.
\<close>

theorem C4_defaults_counterexample:
  "\<not> (minProfitPercent (config OpportunityDetector_new) = 0.1
      \<and> slippageBuffer (config OpportunityDetector_new) = 0.1
      \<and> maxSpreadAge (config OpportunityDetector_new) = 5000
      \<and> tickIntervalMs = 1000
      \<and> tradeAmount OpportunityDetector_new = 1000
      \<and> retentionCount = 1000)"
  by (simp add: OpportunityDetector_new_def)

text \<open>
  C4, amended: a detector constructed without configuration has
  \<open>min_profit_percent = -0.5\<close>, \<open>slippage_buffer = 0\<close>, \<open>max_spread_age_ms = 5000\<close>,
  a tick interval of 1000 ms, \<open>trade_amount_usd = 1000\<close> and a retention bound of 1000.
\<close>

theorem C4_defaults:
  "minProfitPercent (config OpportunityDetector_new) = - 0.5
   \<and> slippageBuffer (config OpportunityDetector_new) = 0
   \<and> maxSpreadAge (config OpportunityDetector_new) = 5000
   \<and> tickIntervalMs = 1000
   \<and> tradeAmount OpportunityDetector_new = 1000
   \<and> retentionCount = 1000"
  by (simp add: OpportunityDetector_new_def tickIntervalMs_def retentionCount_def)

subsection \<open>Reconnect backoff\<close>

lemma eventsOfFailures_snoc:
  "eventsOfFailures ex i (as @ [a]) = eventsOfFailures ex i as @ failureEvents ex (i + length as) a"
  by (induction as arbitrary: i) simp_all

lemma handleReconnect_cases:
  "handleReconnect c =
     (if reconnectAttempts c < 5
      then c\<lparr> reconnectAttempts := reconnectAttempts c + 1,
              reconnectTimeout := Some (min (1000 * 2 ^ (reconnectAttempts c + 1)) 30000) \<rparr>
      else c\<lparr> emitted := emitted c @ [ErrorEvent (exchangeId c) ''Max reconnection attempts reached''] \<rparr>)"
  by (simp add: handleReconnect_def maxReconnectAttempts_def Let_def)

lemma failed_attempt:
  assumes "a \<noteq> SocketOpens"
  shows "connectionAttempt c a =
     (if reconnectAttempts c < 5
      then c\<lparr> reconnectAttempts := reconnectAttempts c + 1,
              reconnectTimeout := Some (min (1000 * 2 ^ (reconnectAttempts c + 1)) 30000),
              emitted := emitted c @ socketErrorEvents (exchangeId c) a \<rparr>
      else c\<lparr> reconnectTimeout := None,
              emitted := emitted c @ socketErrorEvents (exchangeId c) a
                           @ [ErrorEvent (exchangeId c) ''Max reconnection attempts reached''] \<rparr>)"
proof (cases a)
  case ConnectThrows
  then show ?thesis
    by (simp add: connectionAttempt_def attemptEvents_def connect_def handleReconnect_cases
        socketErrorEvents_def)
next
  case (SocketFails e)
  then show ?thesis
    by (simp add: connectionAttempt_def attemptEvents_def connect_def onSocketEvent_def
        handleReconnect_cases socketErrorEvents_def)
next
  case SocketCloses
  then show ?thesis
    by (simp add: connectionAttempt_def attemptEvents_def connect_def onSocketEvent_def
        handleReconnect_cases socketErrorEvents_def)
next
  case SocketOpens
  then show ?thesis using assms by simp
qed

lemma afterAttempts_shape:
  assumes "reconnectAttempts c = 0" and "SocketOpens \<notin> set as"
  shows "afterAttempts c as =
     c\<lparr> reconnectAttempts := min (length as) 5,
        reconnectTimeout := (if as = [] then reconnectTimeout c
                             else if length as \<le> 5 then Some (min (1000 * 2 ^ length as) 30000)
                             else None),
        emitted := emitted c @ eventsOfFailures (exchangeId c) 1 as \<rparr>"
  using assms(2)
proof (induction as rule: rev_induct)
  case Nil
  then show ?case using assms(1) by (simp add: afterAttempts_def)
next
  case (snoc a as)
  have a: "a \<noteq> SocketOpens" and as: "SocketOpens \<notin> set as" using snoc.prems by auto
  have step: "afterAttempts c (as @ [a]) = connectionAttempt (afterAttempts c as) a"
    by (simp add: afterAttempts_def)
  show ?case
  proof (cases "length as < 5")
    case True
    then show ?thesis
      unfolding step failed_attempt [OF a] snoc.IH [OF as]
      by (simp add: eventsOfFailures_snoc failureEvents_def)
  next
    case False
    then show ?thesis
      unfolding step failed_attempt [OF a] snoc.IH [OF as]
      by (simp add: eventsOfFailures_snoc failureEvents_def)
  qed
qed

lemma replicate_5: "replicate 5 x = [x, x, x, x, x]"
  by (simp add: numeral_eq_Suc)

lemma replicate_6: "replicate 6 x = [x, x, x, x, x, x]"
  by (simp add: numeral_eq_Suc)

lemma Gemini_socket_failure:
  "Gemini_connectionAttempt c (SocketFails e)
     = c\<lparr> reconnectAttempts := 1, reconnectTimeout := Some 2000,
           emitted := emitted c @ [ConnectedEvent (exchangeId c), ErrorEvent (exchangeId c) e] \<rparr>"
  by (simp add: Gemini_connectionAttempt_def attemptEvents_def Gemini_connect_def
      Gemini_onSocketEvent_def handleReconnect_cases)

text \<open>
  C5, as stated: every venue client schedules the n-th consecutive retry after
  \<open>min(2^n s, 30 s)\<close>, and on the 5th consecutive failure it surfaces a terminal error
  and schedules no retry. At the 5th failure of a fresh Binance client the counter is 4,
  below \<open>maxReconnectAttempts\<close>: no terminal error is emitted and a fifth retry is
  scheduled, after 30 s. And the Gemini client resets its counter in every call of
  \<open>connect()\<close> that returns, so that its second failed attempt in a row schedules the
  retry after 2 s again, not 4 s, and six failed attempts in a row end with a retry
  scheduled after 2 s and without the terminal error.
\<close>

theorem C5_fifth_failure_counterexample:
  "\<not> (ErrorEvent ''binance'' ''Max reconnection attempts reached''
         \<in> set (emitted (afterAttempts (VenueClient_new ''binance'') (replicate 5 SocketCloses)))
      \<and> reconnectTimeout (afterAttempts (VenueClient_new ''binance'') (replicate 5 SocketCloses)) = None)
   \<and> reconnectTimeout (afterAttempts (VenueClient_new ''binance'') (replicate 5 SocketCloses))
       = Some 30000
   \<and> reconnectTimeout (Gemini_afterAttempts (VenueClient_new ''gemini'')
        [SocketFails ''ECONNREFUSED'', SocketFails ''ECONNREFUSED'']) = Some 2000
   \<and> reconnectTimeout (Gemini_afterAttempts (VenueClient_new ''gemini'')
        (replicate 6 (SocketFails ''ECONNREFUSED''))) = Some 2000
   \<and> ErrorEvent ''gemini'' ''Max reconnection attempts reached''
        \<notin> set (emitted (Gemini_afterAttempts (VenueClient_new ''gemini'')
              (replicate 6 (SocketFails ''ECONNREFUSED''))))"
proof -
  have "afterAttempts (VenueClient_new ''binance'') (replicate 5 SocketCloses)
        = \<lparr> exchangeId = ''binance'', reconnectAttempts = 5, reconnectTimeout = Some 30000,
            emitted = [] \<rparr>"
    by (subst afterAttempts_shape)
       (simp_all add: VenueClient_new_def failureEvents_def socketErrorEvents_def replicate_5)
  then show ?thesis
    by (simp add: Gemini_afterAttempts_def Gemini_socket_failure VenueClient_new_def replicate_6)
qed

text \<open>
  C5, amended, for the Binance, Bybit, Coinbase, Kraken and KuCoin clients: starting from
  a counter of 0 (a fresh client, or one whose socket has opened), after the n-th
  connection attempt that fails in a row, with \<open>1 \<le> n \<le> 5\<close>, a reconnect is scheduled
  after \<open>min(2^n * 1 s, 30 s)\<close> (2, 4, 8, 16, 30 seconds) and the counter is \<open>n\<close>; from the
  6th on no retry is scheduled and the counter stays at 5. The events emitted by the
  failed attempts are the error events of the sockets and, for the 6th and every later
  failure, the terminal error event \<open>Max reconnection attempts reached\<close>. An attempt
  whose socket opens sets the counter back to 0.
\<close>

theorem C5_reconnect_backoff:
  assumes "reconnectAttempts c = 0" and "SocketOpens \<notin> set as" and "length as = n"
  shows "(1 \<le> n \<and> n \<le> 5 \<longrightarrow>
            reconnectTimeout (afterAttempts c as) = Some (min (1000 * 2 ^ n) 30000)
            \<and> reconnectAttempts (afterAttempts c as) = n)
       \<and> (6 \<le> n \<longrightarrow>
            reconnectTimeout (afterAttempts c as) = None
            \<and> reconnectAttempts (afterAttempts c as) = 5)
       \<and> emitted (afterAttempts c as) = emitted c @ eventsOfFailures (exchangeId c) 1 as
       \<and> reconnectAttempts (connectionAttempt (afterAttempts c as) SocketOpens) = 0"
  using assms(3) unfolding afterAttempts_shape [OF assms(1,2)]
  by (auto simp: connectionAttempt_def attemptEvents_def connect_def onSocketEvent_def)

theorem C5_reconnect_backoff_witness:
  "map (\<lambda>as. reconnectTimeout (afterAttempts (VenueClient_new ''bybit'') as))
     [[SocketCloses], [SocketCloses, ConnectThrows],
      [SocketCloses, ConnectThrows, SocketFails ''ECONNREFUSED''],
      [SocketCloses, ConnectThrows, SocketFails ''ECONNREFUSED'', ConnectThrows],
      [SocketCloses, ConnectThrows, SocketFails ''ECONNREFUSED'', ConnectThrows, ConnectThrows],
      [SocketCloses, ConnectThrows, SocketFails ''ECONNREFUSED'', ConnectThrows, ConnectThrows,
       SocketFails ''ETIMEDOUT'']]
     = [Some 2000, Some 4000, Some 8000, Some 16000, Some 30000, None]
   \<and> emitted (afterAttempts (VenueClient_new ''bybit'')
        [SocketCloses, ConnectThrows, SocketFails ''ECONNREFUSED'', ConnectThrows, ConnectThrows,
         SocketFails ''ETIMEDOUT''])
       = [ErrorEvent ''bybit'' ''ECONNREFUSED'', ErrorEvent ''bybit'' ''ETIMEDOUT'',
          ErrorEvent ''bybit'' ''Max reconnection attempts reached'']"
proof -
  let ?c = "VenueClient_new ''bybit''"
  let ?a3 = "SocketFails ''ECONNREFUSED''"
  let ?a6 = "SocketFails ''ETIMEDOUT''"
  have a: "reconnectAttempts ?c = 0" by (simp add: VenueClient_new_def)
  have t1: "reconnectTimeout (afterAttempts ?c [SocketCloses]) = Some 2000"
    using C5_reconnect_backoff [OF a, of "[SocketCloses]" 1] by simp
  have t2: "reconnectTimeout (afterAttempts ?c [SocketCloses, ConnectThrows]) = Some 4000"
    using C5_reconnect_backoff [OF a, of "[SocketCloses, ConnectThrows]" 2] by simp
  have t3: "reconnectTimeout (afterAttempts ?c [SocketCloses, ConnectThrows, ?a3]) = Some 8000"
    using C5_reconnect_backoff [OF a, of "[SocketCloses, ConnectThrows, ?a3]" 3] by simp
  have t4: "reconnectTimeout (afterAttempts ?c [SocketCloses, ConnectThrows, ?a3, ConnectThrows])
              = Some 16000"
    using C5_reconnect_backoff [OF a, of "[SocketCloses, ConnectThrows, ?a3, ConnectThrows]" 4]
    by simp
  have t5: "reconnectTimeout (afterAttempts ?c
              [SocketCloses, ConnectThrows, ?a3, ConnectThrows, ConnectThrows]) = Some 30000"
    using C5_reconnect_backoff [OF a,
        of "[SocketCloses, ConnectThrows, ?a3, ConnectThrows, ConnectThrows]" 5]
    by simp
  have t6: "reconnectTimeout (afterAttempts ?c
              [SocketCloses, ConnectThrows, ?a3, ConnectThrows, ConnectThrows, ?a6]) = None"
    "emitted (afterAttempts ?c
              [SocketCloses, ConnectThrows, ?a3, ConnectThrows, ConnectThrows, ?a6])
       = [ErrorEvent ''bybit'' ''ECONNREFUSED'', ErrorEvent ''bybit'' ''ETIMEDOUT'',
          ErrorEvent ''bybit'' ''Max reconnection attempts reached'']"
    using C5_reconnect_backoff [OF a,
        of "[SocketCloses, ConnectThrows, ?a3, ConnectThrows, ConnectThrows, ?a6]" 6]
    by (simp_all add: VenueClient_new_def failureEvents_def socketErrorEvents_def)
  show ?thesis
    by (simp only: list.map t1 t2 t3 t4 t5 t6 simp_thms)
qed


lemmas string_defs =
  toUpperCase_def toLowerCase_def lowerLetters_def upperLetters_def endsWith_def sliceOff_def
  split_def removeDashes_def

subsection \<open>The qualification rule of the detector\<close>





subsection \<open>Grouping of books by symbol\<close>

text \<open>
  C2, evaluated at the failing input: a Kraken book carries its native symbol
  \<open>XBT/USD\<close> (or \<open>BTC/USD\<close>), which the registry canonicalises with the slash removed,
  while the detector's \<open>normalizeSymbol\<close> only strips dashes and rewrites \<open>USDT\<close>.
  So the Kraken book and the Binance book of the same pair are scanned under two
  different symbols and no opportunity is found between them, although Kraken's bid
  (10500) is 5 percent above Binance's ask (10000).
\<close>

theorem C2_kraken_book_grouped_apart:
  "fromExchangeSymbol ''XBT/USD'' ''kraken'' = Some ''BTCUSD''
   \<and> fromExchangeSymbol ''BTCUSDT'' ''binance'' = Some ''BTCUSD''
   \<and> normalizeSymbol ''XBT/USD'' = ''XBT/USD''
   \<and> normalizeSymbol ''BTC/USD'' = ''BTC/USD''
   \<and> normalizeSymbol ''BTCUSDT'' = ''BTCUSD''
   \<and> getAvailableSymbols
        (OpportunityDetector_new\<lparr> orderBooks :=
           [(''binance:BTCUSDT'', binanceBook 0), (''kraken:XBT/USD'', krakenBook ''XBT/USD'' 0)] \<rparr>)
       = [''BTCUSD'', ''XBT/USD'']
   \<and> detectOpportunities
        (OpportunityDetector_new\<lparr> orderBooks :=
           [(''binance:BTCUSDT'', binanceBook 0), (''kraken:XBT/USD'', krakenBook ''XBT/USD'' 0)] \<rparr>) 0
       = []"
proof -
  have "fromExchangeSymbol ''XBT/USD'' ''kraken'' = Some ''BTCUSD''"
    by (simp add: fromExchangeSymbol_def exchangeFormats_def parseExchangeSymbol_def
        applySpecialMappings_def krakenSpecialMappings_def normalizeQuoteAsset_def string_defs)
  moreover have "fromExchangeSymbol ''BTCUSDT'' ''binance'' = Some ''BTCUSD''"
    by (simp add: fromExchangeSymbol_def exchangeFormats_def parseExchangeSymbol_def
        applySpecialMappings_def normalizeQuoteAsset_def string_defs)
  moreover have "normalizeSymbol ''XBT/USD'' = ''XBT/USD''"
    "normalizeSymbol ''BTC/USD'' = ''BTC/USD''" "normalizeSymbol ''BTCUSDT'' = ''BTCUSD''"
    by (simp_all add: normalizeSymbol_def removeDashes_def)
  moreover have "getAvailableSymbols
        (OpportunityDetector_new\<lparr> orderBooks :=
           [(''binance:BTCUSDT'', binanceBook 0), (''kraken:XBT/USD'', krakenBook ''XBT/USD'' 0)] \<rparr>)
       = [''BTCUSD'', ''XBT/USD'']"
    by (simp add: getAvailableSymbols_def setAdd_def normalizeSymbol_def removeDashes_def
        binanceBook_def krakenBook_def)
  moreover have "detectOpportunities
        (OpportunityDetector_new\<lparr> orderBooks :=
           [(''binance:BTCUSDT'', binanceBook 0), (''kraken:XBT/USD'', krakenBook ''XBT/USD'' 0)] \<rparr>) 0
       = []"
    by (simp add: detectOpportunities_def findArbitrageOpportunities_def orderBooksByExchange_def
        getAvailableSymbols_def setAdd_def normalizeSymbol_def removeDashes_def binanceBook_def
        krakenBook_def isOrderBookFresh_def OpportunityDetector_new_def)
  ultimately show ?thesis by simp
qed

text \<open>
  Where the detector's own normalisation does agree with the registry: the native
  spellings of Binance, Bybit, Coinbase and KuCoin for a USD or USDT pair.
\<close>

lemma normalizeSymbol_agrees_without_slash:
  "\<forall>(v, native) \<in> set [(''binance'', ''BTCUSDT''), (''bybit'', ''BTCUSDT''),
                           (''coinbase'', ''BTC-USD''), (''kucoin'', ''BTC-USDT'')].
     fromExchangeSymbol native v = Some (normalizeSymbol native)"
  by (simp add: fromExchangeSymbol_def exchangeFormats_def parseExchangeSymbol_def
      applySpecialMappings_def normalizeQuoteAsset_def normalizeSymbol_def string_defs)

subsection \<open>Round trip through the registry\<close>

text \<open>
  Where the round trip does hold: on each of the six venues, for every symbol that
  \<open>parseNormalizedSymbol\<close> splits into an upper-case base without \<open>-\<close> and \<open>/\<close>
  and one of the quotes USD, EUR, BTC, ETH (lemma \<open>round_trip_general\<close>).
\<close>

lemma splitQuote_Some:
  "splitQuote qs s = Some (b, q) \<Longrightarrow> s = b @ q \<and> b \<noteq> [] \<and> q \<in> set qs"
proof (induction qs)
  case Nil
  then show ?case by simp
next
  case (Cons x xs)
  show ?case
  proof (cases "endsWith s x \<and> sliceOff s (length x) \<noteq> []")
    case True
    then have "splitQuote (x # xs) s = Some (sliceOff s (length x), x)" by simp
    with Cons.prems have b: "b = sliceOff s (length x)" and q: "q = x" by simp_all
    from True have "drop (length s - length x) s = x" by (simp add: endsWith_def)
    then have "take (length s - length x) s @ x = s"
      using append_take_drop_id [of "length s - length x" s] by simp
    then have "s = b @ q" by (simp add: b q sliceOff_def)
    moreover have "b \<noteq> []" using True b by simp
    ultimately show ?thesis using q by simp
  next
    case False
    then have "splitQuote (x # xs) s = splitQuote xs s" by auto
    with Cons.prems have "splitQuote xs s = Some (b, q)" by simp
    from Cons.IH [OF this] show ?thesis by simp
  qed
qed

lemma splitQuote_append:
  "splitQuote (xs @ ys) s = (case splitQuote xs s of None \<Rightarrow> splitQuote ys s | Some r \<Rightarrow> Some r)"
  by (induction xs) auto

lemma splitQuote_direct:
  "b \<noteq> [] \<Longrightarrow> splitQuote (q # qs) (b @ q) = Some (b, q)"
  by (simp add: endsWith_def sliceOff_def)

lemma toUpperCase_append: "toUpperCase (a @ b) = toUpperCase a @ toUpperCase b"
  by (simp add: toUpperCase_def)

lemma toLowerCase_append: "toLowerCase (a @ b) = toLowerCase a @ toLowerCase b"
  by (simp add: toLowerCase_def)

lemma up_low_char: "upChar c = c \<Longrightarrow> upChar (lowChar c) = c"
  unfolding upChar_def lowChar_def lowerLetters_def upperLetters_def
  by (simp split: if_splits)

lemma toUpperCase_map: "toUpperCase s = map upChar s"
  by (simp add: toUpperCase_def upChar_def)

lemma toLowerCase_map: "toLowerCase s = map lowChar s"
  by (simp add: toLowerCase_def lowChar_def)

lemma up_low: "toUpperCase s = s \<Longrightarrow> toUpperCase (toLowerCase s) = s"
  unfolding toUpperCase_map toLowerCase_map
  by (induction s) (auto simp: up_low_char)

lemma splitOn_once:
  "c \<notin> set a \<Longrightarrow> c \<notin> set b \<Longrightarrow> splitOn c (a @ c # b) = [a, b]"
proof (induction a)
  case Nil
  have "splitOn c b = [b]" using Nil(2) by (induction b) auto
  then show ?case by simp
next
  case (Cons x xs)
  then show ?case by auto
qed

lemma six_of_seven:
  assumes "parseNormalizedSymbol s = Some (base, quote)" and "quote \<noteq> ''BNB''"
  shows "splitQuote [''USDT'', ''USDC'', ''USD'', ''EUR'', ''BTC'', ''ETH''] s = Some (base, quote)"
proof -
  have "splitQuote ([''USDT'', ''USDC'', ''USD'', ''EUR'', ''BTC'', ''ETH''] @ [''BNB'']) s
          = Some (base, quote)"
    using assms(1) by (simp add: parseNormalizedSymbol_def)
  then show ?thesis
    unfolding splitQuote_append
    using assms(2) by (auto split: option.splits if_splits)
qed

lemma format_case:
  "toLowerCase ''BASEQOUTE'' \<noteq> ''BASEQOUTE''"
  "toLowerCase ''BASE-QUOTE'' \<noteq> ''BASE-QUOTE''"
  "toLowerCase ''BASE/QUOTE'' \<noteq> ''BASE/QUOTE''"
  "toLowerCase ''baseqoute'' = ''baseqoute''"
  by (simp_all add: string_defs)

lemma quote_case:
  "toUpperCase ''USDT'' = ''USDT''" "toUpperCase ''USD'' = ''USD''" "toUpperCase ''EUR'' = ''EUR''"
  "toUpperCase ''BTC'' = ''BTC''" "toUpperCase ''ETH'' = ''ETH''" "toUpperCase ''XBT'' = ''XBT''"
  by (simp_all add: string_defs)

lemma normalizeQuoteAsset_values:
  "normalizeQuoteAsset ''USDT'' = ''USD''" "normalizeQuoteAsset ''USD'' = ''USD''"
  "normalizeQuoteAsset ''EUR'' = ''EUR''" "normalizeQuoteAsset ''BTC'' = ''BTC''"
  "normalizeQuoteAsset ''ETH'' = ''ETH''"
  by (simp_all add: normalizeQuoteAsset_def string_defs)

lemma to_no_separator_upper:
  assumes "v = ''binance'' \<or> v = ''bybit''" and "parseNormalizedSymbol s = Some (base, quote)"
  shows "toExchangeSymbol s v
           = Some (toUpperCase base @ toUpperCase (if quote = ''USD'' then ''USDT'' else quote))"
  using assms
  by (auto simp: toExchangeSymbol_def exchangeFormats_def applySpecialMappings_def format_case)

lemma to_gemini:
  assumes "parseNormalizedSymbol s = Some (base, quote)"
  shows "toExchangeSymbol s ''gemini'' = Some (toLowerCase base @ toLowerCase quote)"
  using assms
  by (simp add: toExchangeSymbol_def exchangeFormats_def applySpecialMappings_def format_case)

lemma from_no_separator:
  assumes "v = ''binance'' \<or> v = ''bybit'' \<or> v = ''gemini''"
    and "splitQuote [''USDT'', ''USDC'', ''USD'', ''EUR'', ''BTC'', ''ETH''] (toUpperCase native)
           = Some (base, quote)"
  shows "fromExchangeSymbol native v = Some (toUpperCase base @ toUpperCase (normalizeQuoteAsset quote))"
  using assms
  by (auto simp: fromExchangeSymbol_def exchangeFormats_def applySpecialMappings_def
      parseExchangeSymbol_def)

lemma parse_parts:
  assumes "parseNormalizedSymbol s = Some (base, quote)"
  shows "s = base @ quote" and "base \<noteq> []"
proof -
  from assms have "s = base @ quote \<and> base \<noteq> []
       \<and> quote \<in> set [''USDT'', ''USDC'', ''USD'', ''EUR'', ''BTC'', ''ETH'', ''BNB'']"
    unfolding parseNormalizedSymbol_def by (rule splitQuote_Some)
  then show "s = base @ quote" and "base \<noteq> []" by simp_all
qed

lemma canonical_quote_facts:
  assumes "quote \<in> canonicalQuotes"
  shows "quote \<noteq> ''BNB''" and "toUpperCase quote = quote"
    and "toUpperCase (toLowerCase quote) = quote" and "normalizeQuoteAsset quote = quote"
    and "CHR ''-'' \<notin> set quote" and "CHR ''/'' \<notin> set quote"
proof -
  from assms have q: "quote = ''USD'' \<or> quote = ''EUR'' \<or> quote = ''BTC'' \<or> quote = ''ETH''"
    by (simp add: canonicalQuotes_def)
  show "quote \<noteq> ''BNB''" using q by auto
  show u: "toUpperCase quote = quote" using q by (auto simp: quote_case)
  show "toUpperCase (toLowerCase quote) = quote" by (rule up_low [OF u])
  show "normalizeQuoteAsset quote = quote" using q by (auto simp: normalizeQuoteAsset_values)
  show "CHR ''-'' \<notin> set quote" "CHR ''/'' \<notin> set quote" using q by auto
qed

lemma round_trip_no_separator:
  assumes v: "v = ''binance'' \<or> v = ''bybit'' \<or> v = ''gemini''"
    and p: "parseNormalizedSymbol s = Some (base, quote)"
    and q: "quote \<in> canonicalQuotes"
    and up: "toUpperCase base = base"
  shows "Option.bind (toExchangeSymbol s v) (\<lambda>native. fromExchangeSymbol native v) = Some s"
proof -
  note s = parse_parts [OF p]
  note qf = canonical_quote_facts [OF q]
  have six: "splitQuote [''USDT'', ''USDC'', ''USD'', ''EUR'', ''BTC'', ''ETH''] (base @ quote)
               = Some (base, quote)"
    using six_of_seven [OF p qf(1)] by (simp only: s(1) [symmetric])
  show ?thesis
  proof (cases "v = ''gemini''")
    case True
    have u: "toUpperCase (toLowerCase base @ toLowerCase quote) = base @ quote"
      by (simp add: toUpperCase_append up_low [OF up] qf(3))
    have "fromExchangeSymbol (toLowerCase base @ toLowerCase quote) v
            = Some (toUpperCase base @ toUpperCase (normalizeQuoteAsset quote))"
      by (rule from_no_separator [OF v]) (simp only: u six)
    then show ?thesis
      using to_gemini [OF p] True by (simp add: up qf s(1))
  next
    case False
    with v have vb: "v = ''binance'' \<or> v = ''bybit''" by simp
    show ?thesis
    proof (cases "quote = ''USD''")
      case True
      have to: "toExchangeSymbol s v = Some (base @ ''USDT'')"
        using to_no_separator_upper [OF vb p] True by (simp add: up quote_case)
      have u: "toUpperCase (base @ ''USDT'') = base @ ''USDT''"
        by (simp add: toUpperCase_append up quote_case)
      have "splitQuote [''USDT'', ''USDC'', ''USD'', ''EUR'', ''BTC'', ''ETH''] (base @ ''USDT'')
              = Some (base, ''USDT'')"
        using s(2) by (rule splitQuote_direct)
      then have "fromExchangeSymbol (base @ ''USDT'') v
            = Some (toUpperCase base @ toUpperCase (normalizeQuoteAsset ''USDT''))"
        by (intro from_no_separator [OF v]) (simp only: u)
      then show ?thesis
        using to True by (simp add: up normalizeQuoteAsset_values quote_case s(1))
    next
      case False
      have to: "toExchangeSymbol s v = Some (base @ quote)"
        using to_no_separator_upper [OF vb p] False by (simp add: up qf)
      have u: "toUpperCase (base @ quote) = base @ quote"
        by (simp add: toUpperCase_append up qf)
      have "fromExchangeSymbol (base @ quote) v
            = Some (toUpperCase base @ toUpperCase (normalizeQuoteAsset quote))"
        by (rule from_no_separator [OF v]) (simp only: u six)
      then show ?thesis
        using to by (simp add: up qf s(1))
    qed
  qed
qed

lemma krakenSwap_facts:
  "krakenSwap (krakenSwap b) = b"
  "toUpperCase b = b \<Longrightarrow> toUpperCase (krakenSwap b) = krakenSwap b"
  "CHR ''/'' \<notin> set b \<Longrightarrow> CHR ''/'' \<notin> set (krakenSwap b)"
  "b \<noteq> [] \<Longrightarrow> krakenSwap b \<noteq> []"
  by (auto simp: krakenSwap_def quote_case)

lemma to_with_separator:
  assumes "parseNormalizedSymbol s = Some (base, quote)"
  shows "toExchangeSymbol s ''coinbase'' = Some (toUpperCase base @ ''-'' @ toUpperCase quote)"
    and "toExchangeSymbol s ''kucoin''
           = Some (toUpperCase base @ ''-'' @ toUpperCase (if quote = ''USD'' then ''USDT'' else quote))"
    and "toExchangeSymbol s ''kraken''
           = Some (toUpperCase (krakenSwap base) @ ''/'' @ toUpperCase quote)"
  using assms
  by (auto simp: toExchangeSymbol_def exchangeFormats_def applySpecialMappings_def format_case
      krakenSpecialMappings_def krakenSwap_def)

lemma from_with_separator:
  assumes "b \<noteq> []" and "q \<noteq> []"
  shows "CHR ''-'' \<notin> set b \<Longrightarrow> CHR ''-'' \<notin> set q \<Longrightarrow>
           fromExchangeSymbol (b @ ''-'' @ q) ''coinbase''
             = Some (toUpperCase b @ toUpperCase (normalizeQuoteAsset q))"
    and "CHR ''-'' \<notin> set b \<Longrightarrow> CHR ''-'' \<notin> set q \<Longrightarrow>
           fromExchangeSymbol (b @ ''-'' @ q) ''kucoin''
             = Some (toUpperCase b @ toUpperCase (normalizeQuoteAsset q))"
    and "CHR ''/'' \<notin> set b \<Longrightarrow> CHR ''/'' \<notin> set q \<Longrightarrow>
           fromExchangeSymbol (b @ ''/'' @ q) ''kraken''
             = Some (toUpperCase (krakenSwap b) @ toUpperCase (normalizeQuoteAsset q))"
  using assms
  by (auto simp: fromExchangeSymbol_def exchangeFormats_def applySpecialMappings_def
      parseExchangeSymbol_def split_def splitOn_once krakenSpecialMappings_def krakenSwap_def)

lemma round_trip_with_separator:
  assumes v: "v = ''coinbase'' \<or> v = ''kucoin'' \<or> v = ''kraken''"
    and p: "parseNormalizedSymbol s = Some (base, quote)"
    and q: "quote \<in> canonicalQuotes"
    and up: "toUpperCase base = base"
    and dash: "CHR ''-'' \<notin> set base" and slash: "CHR ''/'' \<notin> set base"
  shows "Option.bind (toExchangeSymbol s v) (\<lambda>native. fromExchangeSymbol native v) = Some s"
proof -
  note s = parse_parts [OF p]
  note qf = canonical_quote_facts [OF q]
  have qne: "quote \<noteq> []" using q by (auto simp: canonicalQuotes_def)
  consider "v = ''coinbase''" | "v = ''kucoin''" | "v = ''kraken''" using v by blast
  then show ?thesis
  proof cases
    case 1
    have "fromExchangeSymbol (base @ ''-'' @ quote) ''coinbase''
            = Some (toUpperCase base @ toUpperCase (normalizeQuoteAsset quote))"
      by (rule from_with_separator(1) [OF s(2) qne dash qf(5)])
    then have "fromExchangeSymbol (base @ ''-'' @ quote) ''coinbase'' = Some s"
      by (simp only: up qf(2,4) s(1))
    moreover have "toExchangeSymbol s ''coinbase'' = Some (base @ ''-'' @ quote)"
      using to_with_separator(1) [OF p] by (simp only: up qf(2))
    ultimately show ?thesis
      unfolding 1 by (simp only: bind.simps)
  next
    case 2
    let ?q = "if quote = ''USD'' then ''USDT'' else quote"
    have q': "?q \<noteq> []" "CHR ''-'' \<notin> set ?q" "toUpperCase ?q = ?q"
      "toUpperCase (normalizeQuoteAsset ?q) = quote"
      using qne qf by (auto simp: quote_case normalizeQuoteAsset_values)
    have "fromExchangeSymbol (base @ ''-'' @ ?q) ''kucoin''
            = Some (toUpperCase base @ toUpperCase (normalizeQuoteAsset ?q))"
      by (rule from_with_separator(2) [OF s(2) q'(1) dash q'(2)])
    then have "fromExchangeSymbol (base @ ''-'' @ ?q) ''kucoin'' = Some s"
      by (simp only: up q'(4) s(1))
    moreover have "toExchangeSymbol s ''kucoin'' = Some (base @ ''-'' @ ?q)"
      using to_with_separator(2) [OF p] by (simp only: up q'(3))
    ultimately show ?thesis
      unfolding 2 by (simp only: bind.simps)
  next
    case 3
    note k = krakenSwap_facts
    have "fromExchangeSymbol (krakenSwap base @ ''/'' @ quote) ''kraken''
            = Some (toUpperCase (krakenSwap (krakenSwap base)) @ toUpperCase (normalizeQuoteAsset quote))"
      by (rule from_with_separator(3) [OF k(4) [OF s(2)] qne k(3) [OF slash] qf(6)])
    then have "fromExchangeSymbol (krakenSwap base @ ''/'' @ quote) ''kraken'' = Some s"
      by (simp only: k(1) up qf(2,4) s(1))
    moreover have "toExchangeSymbol s ''kraken'' = Some (krakenSwap base @ ''/'' @ quote)"
      using to_with_separator(3) [OF p] by (simp only: k(2) [OF up] qf(2))
    ultimately show ?thesis
      unfolding 3 by (simp only: bind.simps)
  qed
qed

lemma round_trip_general:
  assumes "v \<in> set [''binance'', ''coinbase'', ''kraken'', ''bybit'', ''kucoin'', ''gemini'']"
    and "parseNormalizedSymbol s = Some (base, quote)"
    and "quote \<in> canonicalQuotes"
    and "toUpperCase base = base"
    and "CHR ''-'' \<notin> set base" and "CHR ''/'' \<notin> set base"
  shows "Option.bind (toExchangeSymbol s v) (\<lambda>native. fromExchangeSymbol native v) = Some s"
proof -
  note plain = round_trip_no_separator [OF _ assms(2,3,4)]
  note separated = round_trip_with_separator [OF _ assms(2,3,4,5,6)]
  from assms(1) have "v = ''binance'' \<or> v = ''coinbase'' \<or> v = ''kraken''
      \<or> v = ''bybit'' \<or> v = ''kucoin'' \<or> v = ''gemini''"
    by (simp only: list.set insert_iff empty_iff simp_thms)
  then show ?thesis
  proof (elim disjE)
    assume "v = ''binance''"
    then show ?thesis by (intro plain disjI1)
  next
    assume "v = ''coinbase''"
    then show ?thesis by (intro separated disjI1)
  next
    assume "v = ''kraken''"
    then show ?thesis by (intro separated disjI2)
  next
    assume "v = ''bybit''"
    then show ?thesis by (intro plain disjI2 disjI1)
  next
    assume "v = ''kucoin''"
    then show ?thesis by (intro separated disjI2 disjI1)
  next
    assume "v = ''gemini''"
    then show ?thesis by (intro plain disjI2)
  qed
qed

text \<open>
  C7, evaluated at the failing input: the canonical symbol \<open>ETHBNB\<close> has a native form on
  Binance (\<open>parseNormalizedSymbol\<close> knows the quote \<open>BNB\<close>), but the quote list of
  \<open>parseExchangeSymbol\<close> stops at \<open>ETH\<close>, so the native form does not canonicalise.
  The same holds on Bybit and Gemini, the other venues without a separator.
\<close>

theorem C7_round_trip_fails_for_BNB_quote:
  "toExchangeSymbol ''ETHBNB'' ''binance'' = Some ''ETHBNB''
   \<and> fromExchangeSymbol ''ETHBNB'' ''binance'' = None
   \<and> toExchangeSymbol ''ETHBNB'' ''bybit'' = Some ''ETHBNB''
   \<and> fromExchangeSymbol ''ETHBNB'' ''bybit'' = None
   \<and> toExchangeSymbol ''ETHBNB'' ''gemini'' = Some ''ethbnb''
   \<and> fromExchangeSymbol ''ethbnb'' ''gemini'' = None"
  by (simp add: toExchangeSymbol_def fromExchangeSymbol_def exchangeFormats_def
      parseNormalizedSymbol_def parseExchangeSymbol_def applySpecialMappings_def string_defs)

subsection \<open>The book map of the detector\<close>

lemma collect_keys:
  "fst ` set (fold (\<lambda>(key, orderBook) m.
             if P orderBook then AList.update (exchange orderBook) orderBook m else m) xs acc)
   = fst ` set acc \<union> {exchange ob | ob. ob \<in> snd ` set xs \<and> P ob}"
proof (induction xs arbitrary: acc)
  case Nil
  then show ?case by simp
next
  case (Cons x xs)
  obtain k ob where x: "x = (k, ob)" by (cases x)
  show ?case
    unfolding x by (auto simp: Cons.IH AList.dom_update)
qed

lemma orderBooksByExchange_keys:
  "e \<in> fst ` set (orderBooksByExchange d now symb) \<longleftrightarrow>
     (\<exists>ob \<in> snd ` set (orderBooks d).
        exchange ob = e \<and> normalizeSymbol (symbol ob) = symb \<and> isOrderBookFresh d now ob)"
  unfolding orderBooksByExchange_def
  using collect_keys [of "\<lambda>ob. normalizeSymbol (symbol ob) = symb \<and> isOrderBookFresh d now ob"
      "orderBooks d" "[]"]
  by auto

lemma orderBooks_updateOrderBook:
  "orderBooks (fst (updateOrderBook d now ob)) = AList.update (orderBookKey ob) ob (orderBooks d)"
  by (simp add: updateOrderBook_def Let_def)

lemma config_updateOrderBook: "config (fst (updateOrderBook d now ob)) = config d"
  by (simp add: updateOrderBook_def Let_def)

lemma applyOp_orderBooks:
  "orderBooks (applyOp d op) =
     (case op of UpdateOrderBook now ob \<Rightarrow> AList.update (orderBookKey ob) ob (orderBooks d)
      | _ \<Rightarrow> orderBooks d)"
  by (cases op) (simp_all add: orderBooks_updateOrderBook updateConfig_def updateTradeAmount_def)

lemma applyOp_keys: "fst ` set (orderBooks d) \<subseteq> fst ` set (orderBooks (applyOp d op))"
  unfolding applyOp_orderBooks by (cases op) (auto simp: AList.dom_update)

lemma runOps_keys: "fst ` set (orderBooks d) \<subseteq> fst ` set (orderBooks (runOps d ops))"
  unfolding runOps_def
proof (induction ops arbitrary: d)
  case Nil
  then show ?case by simp
next
  case (Cons op ops)
  have "fst ` set (orderBooks d) \<subseteq> fst ` set (orderBooks (applyOp d op))"
    by (rule applyOp_keys)
  also have "\<dots> \<subseteq> fst ` set (orderBooks (foldl applyOp (applyOp d op) ops))"
    by (rule Cons.IH)
  finally show ?case by simp
qed

text \<open>
  C10: the keys of the detector's book map only grow under any run of its operations;
  \<open>updateOrderBook\<close> sets the entry of its own key and leaves every other entry as it
  was; \<open>updateConfig\<close> and \<open>updateTradeAmount\<close> do not touch the map; and a venue takes
  part in the scan of a symbol exactly when the map holds a book of that venue and symbol
  that passes the freshness check, so a book left behind by a reconfiguration is kept out
  of scans by its age alone.
\<close>

theorem C10_book_map_grows:
  "fst ` set (orderBooks d) \<subseteq> fst ` set (orderBooks (runOps d ops))
   \<and> map_of (orderBooks (fst (updateOrderBook d now ob)))
       = (map_of (orderBooks d))(orderBookKey ob \<mapsto> ob)
   \<and> orderBooks (updateConfig d newConfig) = orderBooks d
   \<and> orderBooks (updateTradeAmount d amount) = orderBooks d
   \<and> (e \<in> fst ` set (orderBooksByExchange d now symb) \<longleftrightarrow>
        (\<exists>ob \<in> snd ` set (orderBooks d).
           exchange ob = e \<and> normalizeSymbol (symbol ob) = symb
           \<and> now - timestamp ob \<le> maxSpreadAge (config d)))"
  using runOps_keys [of d ops] orderBooksByExchange_keys [of e d now symb]
  by (simp add: orderBooks_updateOrderBook AList.update_conv' updateConfig_def
      updateTradeAmount_def isOrderBookFresh_def Let_def)

theorem C10_book_map_grows_witness:
  "''binance:BTCUSDT'' \<in> fst ` set (orderBooks
       (runOps (runOps OpportunityDetector_new [UpdateOrderBook 1001 (binanceBook 1001)])
          [UpdateConfig \<lparr> newMinProfitPercent = Some 0.1, newSlippageBuffer = None,
                          newMaxSpreadAge = None \<rparr>,
           UpdateTradeAmount 500,
           UpdateOrderBook 9000 (coinbaseBook 9000)]))
   \<and> ''binance'' \<notin> fst ` set (orderBooksByExchange
       (runOps OpportunityDetector_new
          [UpdateOrderBook 1001 (binanceBook 1001), UpdateOrderBook 9000 (coinbaseBook 9000)])
       9000 ''BTCUSD'')
   \<and> ''coinbase'' \<in> fst ` set (orderBooksByExchange
       (runOps OpportunityDetector_new
          [UpdateOrderBook 1001 (binanceBook 1001), UpdateOrderBook 9000 (coinbaseBook 9000)])
       9000 ''BTCUSD'')"
proof -
  let ?d1 = "runOps OpportunityDetector_new [UpdateOrderBook 1001 (binanceBook 1001)]"
  let ?ops = "[UpdateConfig \<lparr> newMinProfitPercent = Some 0.1, newSlippageBuffer = None,
                          newMaxSpreadAge = None \<rparr>,
           UpdateTradeAmount 500,
           UpdateOrderBook 9000 (coinbaseBook 9000)]"
  let ?d2 = "runOps OpportunityDetector_new
          [UpdateOrderBook 1001 (binanceBook 1001), UpdateOrderBook 9000 (coinbaseBook 9000)]"
  have books1: "orderBooks ?d1 = [(''binance:BTCUSDT'', binanceBook 1001)]"
    by (simp add: runOps_def orderBooks_updateOrderBook OpportunityDetector_new_def
        orderBookKey_def binanceBook_def)
  have books2: "orderBooks ?d2
      = [(''binance:BTCUSDT'', binanceBook 1001), (''coinbase:BTC-USD'', coinbaseBook 9000)]"
    by (simp add: runOps_def orderBooks_updateOrderBook OpportunityDetector_new_def
        orderBookKey_def binanceBook_def coinbaseBook_def)
  have cfg2: "maxSpreadAge (config ?d2) = 5000"
    by (simp add: runOps_def config_updateOrderBook OpportunityDetector_new_def)
  have a: "''binance:BTCUSDT'' \<in> fst ` set (orderBooks (runOps ?d1 ?ops))"
    using C10_book_map_grows [of ?d1 ?ops] books1 by auto
  have b: "''binance'' \<notin> fst ` set (orderBooksByExchange ?d2 9000 ''BTCUSD'')"
    using C10_book_map_grows [where d = ?d2 and now = 9000 and e = "''binance''"
        and symb = "''BTCUSD''", THEN conjunct2, THEN conjunct2, THEN conjunct2, THEN conjunct2]
    unfolding books2 cfg2
    by (simp add: binanceBook_def coinbaseBook_def)
  have c: "''coinbase'' \<in> fst ` set (orderBooksByExchange ?d2 9000 ''BTCUSD'')"
    using C10_book_map_grows [where d = ?d2 and now = 9000 and e = "''coinbase''"
        and symb = "''BTCUSD''", THEN conjunct2, THEN conjunct2, THEN conjunct2, THEN conjunct2]
    unfolding books2 cfg2
    by (simp add: binanceBook_def coinbaseBook_def normalizeSymbol_def removeDashes_def)
  from a b c show ?thesis by simp
qed

subsection \<open>Order-book intake of the manager\<close>

text \<open>
  C9: the intake writes the cache first, then hands the book to the detector, then
  re-emits it, and stops at the first failure. If the cache write throws, the book reaches
  neither the detector nor the local subscribers, nothing is stored, and the only trace is
  one more line in the error log. If the cache write succeeds, the book is in the cache
  under \<open>orderbook:<venue>:<symbol>\<close> with a time to live of 10 s, the detector has taken
  it, and one \<open>orderbook_update\<close> event has been emitted.
\<close>

theorem C9_intake_aborts_on_cache_failure:
  "(\<not> connected (redisClient m) \<longrightarrow>
      opportunityDetector (handleOrderBookUpdate m now ob) = opportunityDetector m
      \<and> emittedEvents (handleOrderBookUpdate m now ob) = emittedEvents m
      \<and> handedOpportunities (handleOrderBookUpdate m now ob) = handedOpportunities m
      \<and> redisClient (handleOrderBookUpdate m now ob) = redisClient m
      \<and> errorLog (handleOrderBookUpdate m now ob) = errorLog m @ [''The client is closed''])
   \<and> (connected (redisClient m) \<longrightarrow>
      map_of (entries (redisClient (handleOrderBookUpdate m now ob)))
          (''orderbook:'' @ exchange ob @ '':'' @ symbol ob) = Some (10, ob)
      \<and> opportunityDetector (handleOrderBookUpdate m now ob)
          = fst (updateOrderBook (opportunityDetector m) now ob)
      \<and> map_of (orderBooks (opportunityDetector (handleOrderBookUpdate m now ob)))
          (orderBookKey ob) = Some ob
      \<and> emittedEvents (handleOrderBookUpdate m now ob) = emittedEvents m @ [OrderbookUpdate ob]
      \<and> errorLog (handleOrderBookUpdate m now ob) = errorLog m)"
proof (cases "connected (redisClient m)")
  case False
  then show ?thesis
    by (simp add: handleOrderBookUpdate_def setEx_def Let_def)
next
  case True
  obtain d' opps where u: "updateOrderBook (opportunityDetector m) now ob = (d', opps)"
    by (cases "updateOrderBook (opportunityDetector m) now ob")
  have d': "map_of (orderBooks d') (orderBookKey ob) = Some ob"
    using orderBooks_updateOrderBook [of "opportunityDetector m" now ob] u
    by (simp add: AList.update_conv')
  from True show ?thesis
    by (simp add: handleOrderBookUpdate_def setEx_def Let_def u d' AList.update_conv')
qed

theorem C9_intake_aborts_on_cache_failure_witness:
  "handleOrderBookUpdate
     \<lparr> redisClient = \<lparr> connected = False, entries = [] \<rparr>,
       opportunityDetector = OpportunityDetector_new,
       emittedEvents = [], handedOpportunities = [], errorLog = [] \<rparr>
     2000 (binanceBook 2000)
   = \<lparr> redisClient = \<lparr> connected = False, entries = [] \<rparr>,
       opportunityDetector = OpportunityDetector_new,
       emittedEvents = [], handedOpportunities = [], errorLog = [''The client is closed''] \<rparr>
   \<and> emittedEvents (handleOrderBookUpdate
        \<lparr> redisClient = \<lparr> connected = True, entries = [] \<rparr>,
          opportunityDetector = OpportunityDetector_new,
          emittedEvents = [], handedOpportunities = [], errorLog = [] \<rparr>
        2000 (binanceBook 2000))
     = [OrderbookUpdate (binanceBook 2000)]"
proof -
  let ?down = "\<lparr> redisClient = \<lparr> connected = False, entries = [] \<rparr>,
       opportunityDetector = OpportunityDetector_new,
       emittedEvents = [], handedOpportunities = [], errorLog = [] \<rparr>"
  let ?up = "\<lparr> redisClient = \<lparr> connected = True, entries = [] \<rparr>,
          opportunityDetector = OpportunityDetector_new,
          emittedEvents = [], handedOpportunities = [], errorLog = [] \<rparr>"
  have a: "\<not> connected (redisClient ?down)" by simp
  have b: "connected (redisClient ?up)" by simp
  have "handleOrderBookUpdate ?down 2000 (binanceBook 2000)
        = ?down\<lparr> errorLog := [''The client is closed''] \<rparr>"
    using C9_intake_aborts_on_cache_failure [of ?down 2000 "binanceBook 2000"] a
    by (intro DynamicMarketDataManager.equality) simp_all
  moreover have "emittedEvents (handleOrderBookUpdate ?up 2000 (binanceBook 2000))
        = [OrderbookUpdate (binanceBook 2000)]"
    using C9_intake_aborts_on_cache_failure [of ?up 2000 "binanceBook 2000"] b
    by simp
  ultimately show ?thesis by simp
qed

subsection \<open>Sides of the emitted order books\<close>







lemma pricesReadApart_mset: "mset xs = mset ys \<Longrightarrow> pricesReadApart xs = pricesReadApart ys"
  by (metis pricesReadApart_def set_map set_mset_mset)




























subsection \<open>Retention of the sink\<close>

lemma cleanup_small: "length rows \<le> 1000 \<Longrightarrow> cleanupOldOpportunities rows = rows"
  by (simp add: cleanupOldOpportunities_def)

lemma cleanup_large:
  assumes "length rows > 1000"
  shows "cleanupOldOpportunities rows
           = filter (\<lambda>r. \<not> rowId r < rowId (newestFirst rows ! 999)) rows"
proof -
  have len: "999 < length (newestFirst rows)" using assms by (simp add: newestFirst_def)
  then have "drop 999 (newestFirst rows) = newestFirst rows ! 999 # drop 1000 (newestFirst rows)"
    using Cons_nth_drop_Suc [of 999 "newestFirst rows"] by simp
  then show ?thesis
    using assms by (simp add: cleanupOldOpportunities_def Let_def)
qed

lemma appends_below_bound: "length rows \<le> 1000 \<Longrightarrow> foldl sinkAppend [] rows = rows"
proof (induction rows rule: rev_induct)
  case Nil
  then show ?case by simp
next
  case (snoc x xs)
  then show ?case by (simp add: sinkAppend_def cleanup_small)
qed

lemma length_thousandRows: "length thousandRows = 1000"
  by (simp add: thousandRows_def)

lemma sorted_rev_rows:
  "sorted (map (\<lambda>r. - rowTimestamp r) (rev (map (\<lambda>i. rowAt i (c + int i)) [a..<b])))"
proof -
  have "sorted_wrt (\<lambda>i j. i \<le> j) [a..<b]" using sorted_upt by simp
  then have "sorted_wrt (\<lambda>i j. - (c + int j) \<le> - (c + int i)) [a..<b]"
    by (rule sorted_wrt_mono_rel [rotated]) simp
  then show ?thesis
    by (simp add: sorted_wrt_rev sorted_wrt_map rowAt_def flip: rev_map)
qed

lemma newestFirst_late:
  "newestFirst (thousandRows @ [rowAt 1001 1000]) = rev thousandRows @ [rowAt 1001 1000]"
  unfolding newestFirst_def
proof (rule sort_key_inj_key_eq)
  show "mset (thousandRows @ [rowAt 1001 1000]) = mset (rev thousandRows @ [rowAt 1001 1000])"
    by simp
  show "inj_on (\<lambda>r. - rowTimestamp r) (set (thousandRows @ [rowAt 1001 1000]))"
    by (auto simp: inj_on_def thousandRows_def rowAt_def)
  have "sorted (map (\<lambda>r. - rowTimestamp r) (rev thousandRows))"
    unfolding thousandRows_def by (rule sorted_rev_rows)
  then show "sorted (map (\<lambda>r. - rowTimestamp r) (rev thousandRows @ [rowAt 1001 1000]))"
    by (auto simp: sorted_append thousandRows_def rowAt_def)
qed

lemma nth_late: "newestFirst (thousandRows @ [rowAt 1001 1000]) ! 999 = rowAt 1 1001"
proof -
  have "(rev thousandRows @ [rowAt 1001 1000]) ! 999 = rev thousandRows ! 999"
    by (simp add: nth_append length_thousandRows)
  also have "\<dots> = thousandRows ! 0"
    by (simp add: rev_nth length_thousandRows)
  also have "\<dots> = rowAt 1 1001"
    by (simp add: thousandRows_def)
  finally show ?thesis by (simp add: newestFirst_late)
qed

text \<open>
  C6, evaluated at the failing input. The claim: after every append the sink holds at most
  1000 rows, the 1000 newest by detection timestamp. A thousand opportunities are appended
  in the order they were detected (ids 1 to 1000, timestamps 1001 to 2000); then one that
  was detected before all of them (timestamp 1000) is stored last and gets id 1001. The
  1000th most recent row by timestamp is now the row of id 1, no row has a smaller id, so
  \<open>deleteMany({where: {id: {lt: cutoffId}}})\<close> deletes nothing: 1001 rows stay, and
  the row that is not among the 1000 newest by timestamp is one of them.
\<close>

theorem C6_late_row_kept:
  "foldl sinkAppend [] thousandRows = thousandRows
   \<and> sinkAppend thousandRows (rowAt 1001 1000) = thousandRows @ [rowAt 1001 1000]
   \<and> length (sinkAppend thousandRows (rowAt 1001 1000)) = 1001
   \<and> \<not> length (sinkAppend thousandRows (rowAt 1001 1000)) \<le> retentionCount
   \<and> newestRows 1000 (thousandRows @ [rowAt 1001 1000]) = rev thousandRows
   \<and> rowAt 1001 1000 \<notin> set (newestRows 1000 (thousandRows @ [rowAt 1001 1000]))
   \<and> rowAt 1001 1000 \<in> set (sinkAppend thousandRows (rowAt 1001 1000))"
proof -
  have a: "foldl sinkAppend [] thousandRows = thousandRows"
    by (rule appends_below_bound) (simp add: length_thousandRows)
  have "sinkAppend thousandRows (rowAt 1001 1000)
          = filter (\<lambda>r. \<not> rowId r < rowId (rowAt 1 1001)) (thousandRows @ [rowAt 1001 1000])"
    unfolding sinkAppend_def
    by (subst cleanup_large) (simp_all add: length_thousandRows nth_late)
  also have "\<dots> = thousandRows @ [rowAt 1001 1000]"
    by (rule filter_True) (auto simp: thousandRows_def rowAt_def)
  finally have b: "sinkAppend thousandRows (rowAt 1001 1000) = thousandRows @ [rowAt 1001 1000]" .
  have c: "newestRows 1000 (thousandRows @ [rowAt 1001 1000]) = rev thousandRows"
    by (simp add: newestRows_def newestFirst_late length_thousandRows)
  have d: "rowAt 1001 1000 \<notin> set thousandRows"
    by (auto simp: thousandRows_def rowAt_def)
  show ?thesis using a b c d by (simp add: length_thousandRows retentionCount_def)
qed

subsection \<open>Persisting an opportunity\<close>

lemma names_upsertAll:
  "upsertAll db names = Inr db' \<Longrightarrow>
   set (map exchangeName (exchangeTable db')) = set (map exchangeName (exchangeTable db)) \<union> set names
   \<and> reachable db' = reachable db"
proof (induction names arbitrary: db)
  case Nil
  then show ?case by simp
next
  case (Cons n ns)
  then show ?case
    by (auto simp: upsertExchange_def defaultExchangeRow_def split: sum.splits if_splits)
qed

lemma ensure_names:
  assumes "ensureExchangesExist db = Inr db2"
  shows "set (map exchangeName (exchangeTable db2))
           = set (map exchangeName (exchangeTable db)) \<union> {''binance'', ''coinbase''}"
    and "reachable db2 = reachable db"
  using names_upsertAll [of db "[''binance'', ''coinbase'']" db2] assms
  by (simp_all add: ensureExchangesExist_def)

lemma create_ok: "createOpportunity db opportunity = Inr db1 \<Longrightarrow> venuesCovered db opportunity"
  by (auto simp: createOpportunity_def venuesCovered_def split: if_splits)

lemma create_other: "createOpportunity db opportunity = Inl OtherDbError \<Longrightarrow> \<not> reachable db"
  by (auto simp: createOpportunity_def split: if_splits)

lemma save_returns_only_if:
  assumes "saveOpportunityToDatabase db opportunity = Some r"
  shows "\<not> reachable db \<or> venuesCovered db opportunity"
proof (rule saveOpportunityToDatabase.raw_induct
    [where P = "\<lambda>db opportunity r. \<not> reachable db \<or> venuesCovered db opportunity", OF _ assms])
  fix save :: "Database \<Rightarrow> ArbitrageOpportunity \<Rightarrow> (DbError + Database \<times> string list) option"
    and db opportunity r
  assume IH: "\<And>db opportunity y. save db opportunity = Some y \<Longrightarrow>
                \<not> reachable db \<or> venuesCovered db opportunity"
  assume eq: "(case createOpportunity db opportunity of
      Inl error \<Rightarrow>
        if error = ForeignKeyConstraint
        then case ensureExchangesExist db of Inl error' \<Rightarrow> Some (Inl error')
             | Inr db2 \<Rightarrow> save db2 opportunity
        else Some (Inr (db, [''Database error'']))
      | Inr db1 \<Rightarrow>
          Some (Inr (db1\<lparr>opportunityTable := cleanupOldOpportunities (opportunityTable db1)\<rparr>, [])))
     = Some r"
  show "\<not> reachable db \<or> venuesCovered db opportunity"
  proof (cases "createOpportunity db opportunity")
    case (Inr db1)
    then show ?thesis by (simp add: create_ok)
  next
    case (Inl error)
    show ?thesis
    proof (cases error)
      case OtherDbError
      with Inl show ?thesis by (simp add: create_other)
    next
      case ForeignKeyConstraint
      show ?thesis
      proof (cases "ensureExchangesExist db")
        case (Inl e')
        then have "\<not> reachable db"
          by (auto simp: ensureExchangesExist_def upsertExchange_def split: sum.splits if_splits)
        then show ?thesis by simp
      next
        case (Inr db2)
        have "save db2 opportunity = Some r"
          using eq \<open>createOpportunity db opportunity = Inl error\<close> ForeignKeyConstraint Inr by simp
        from IH [OF this] show ?thesis
          using ensure_names [OF Inr] by (auto simp: venuesCovered_def)
      qed
    qed
  qed
qed

lemma ensure_empty:
  "ensureExchangesExist emptyDatabase
     = Inr (emptyDatabase\<lparr> exchangeTable := [defaultExchangeRow ''binance'', defaultExchangeRow ''coinbase''] \<rparr>)"
  by (simp add: ensureExchangesExist_def upsertExchange_def emptyDatabase_def defaultExchangeRow_def)

lemma save_unreachable:
  "\<not> reachable db \<Longrightarrow> saveOpportunityToDatabase db opportunity = Some (Inr (db, [''Database error'']))"
  by (subst saveOpportunityToDatabase.simps) (simp add: createOpportunity_def)

lemma save_after_upsert:
  "saveOpportunityToDatabase emptyDatabase someOpportunity
     = Some (Inr (\<lparr> exchangeTable = [defaultExchangeRow ''binance'', defaultExchangeRow ''coinbase''],
                    opportunityTable = [\<lparr> rowId = 1, rowTimestamp = 0, rowOpportunity = someOpportunity \<rparr>],
                    nextId = 2, reachable = True \<rparr>, []))"
proof -
  have c0: "createOpportunity emptyDatabase someOpportunity = Inl ForeignKeyConstraint"
    by (simp add: createOpportunity_def emptyDatabase_def)
  let ?db2 = "emptyDatabase\<lparr> exchangeTable := [defaultExchangeRow ''binance'', defaultExchangeRow ''coinbase''] \<rparr>"
  have c1: "createOpportunity ?db2 someOpportunity
      = Inr \<lparr> exchangeTable = [defaultExchangeRow ''binance'', defaultExchangeRow ''coinbase''],
                    opportunityTable = [\<lparr> rowId = 1, rowTimestamp = 0, rowOpportunity = someOpportunity \<rparr>],
                    nextId = 2, reachable = True \<rparr>"
    by (simp add: createOpportunity_def emptyDatabase_def defaultExchangeRow_def someOpportunity_def)
  have "saveOpportunityToDatabase emptyDatabase someOpportunity
          = saveOpportunityToDatabase ?db2 someOpportunity"
    by (subst saveOpportunityToDatabase.simps) (simp add: c0 ensure_empty)
  also have "\<dots> = Some (Inr (\<lparr> exchangeTable = [defaultExchangeRow ''binance'', defaultExchangeRow ''coinbase''],
                    opportunityTable = [\<lparr> rowId = 1, rowTimestamp = 0, rowOpportunity = someOpportunity \<rparr>],
                    nextId = 2, reachable = True \<rparr>, []))"
    by (subst saveOpportunityToDatabase.simps) (simp add: c1 cleanup_small)
  finally show ?thesis .
qed

lemma handle_unreachable:
  "\<not> reachable db \<Longrightarrow>
   handleOpportunity db opportunity = Some (db, [OpportunityDetected opportunity], [''Database error''])"
  by (simp add: handleOpportunity_def save_unreachable)

lemma handle_after_upsert:
  "handleOpportunity emptyDatabase someOpportunity
     = Some (\<lparr> exchangeTable = [defaultExchangeRow ''binance'', defaultExchangeRow ''coinbase''],
               opportunityTable = [\<lparr> rowId = 1, rowTimestamp = 0, rowOpportunity = someOpportunity \<rparr>],
               nextId = 2, reachable = True \<rparr>,
             [OpportunityDetected someOpportunity], [])"
  by (simp add: handleOpportunity_def save_after_upsert)

text \<open>
  C8, evaluated at the failing input: an opportunity that buys on Binance and sells on
  Bybit is appended to a sink whose venue table is empty. The append fails on the missing
  venue rows; \<open>ensureExchangesExist\<close> upserts Binance and Coinbase, not Bybit; the
  retry fails in the same way and retries again, without end. The save never returns, so
  \<open>handleOpportunity\<close> never reaches its \<open>emit\<close>.
\<close>

theorem C8_missing_venue_never_saved:
  "createOpportunity emptyDatabase bybitOpportunity = Inl ForeignKeyConstraint
   \<and> ensureExchangesExist emptyDatabase
       = Inr (emptyDatabase\<lparr> exchangeTable :=
                [defaultExchangeRow ''binance'', defaultExchangeRow ''coinbase''] \<rparr>)
   \<and> saveOpportunityToDatabase emptyDatabase bybitOpportunity = None
   \<and> handleOpportunity emptyDatabase bybitOpportunity = None"
proof -
  have c: "createOpportunity emptyDatabase bybitOpportunity = Inl ForeignKeyConstraint"
    by (simp add: createOpportunity_def emptyDatabase_def)
  have s: "saveOpportunityToDatabase emptyDatabase bybitOpportunity = None"
  proof (cases "saveOpportunityToDatabase emptyDatabase bybitOpportunity")
    case None
    then show ?thesis .
  next
    case (Some r)
    from save_returns_only_if [OF this] show ?thesis
      by (simp add: emptyDatabase_def bybitOpportunity_def someOpportunity_def venuesCovered_def)
  qed
  show ?thesis
    using c s by (simp add: ensure_empty handleOpportunity_def)
qed

theorem C8_missing_venue_never_saved_witness:
  "reachable emptyDatabase
   \<and> sellExchange bybitOpportunity \<notin> set (map exchangeName (exchangeTable emptyDatabase))
   \<and> sellExchange bybitOpportunity \<notin> {''binance'', ''coinbase''}
   \<and> handleOpportunity emptyDatabase bybitOpportunity = None"
  using C8_missing_venue_never_saved
  by (simp add: emptyDatabase_def bybitOpportunity_def someOpportunity_def)

end
